theory Spec2Isabelle
  imports Main
begin

section \<open>The window store\<close>

text \<open>
  The rate limiter of \<^verbatim>\<open>apps/server/src/services/pushRateLimiter.ts\<close> keeps two counters per
  mobile session in Redis. The store is modelled as a map from keys to entries; an entry
  holds the integer a counter key stores and the milliseconds left until the key expires
  (\<open>None\<close>: the key has no expiry). Only the commands the service issues are modelled,
  with the replies Redis documents for them:
  \<^item> \<open>GET\<close> replies nil for an absent key;
  \<^item> \<open>TTL\<close> replies \<open>-2\<close> for an absent key, \<open>-1\<close> for a key without expiry, and otherwise
    the remaining time rounded to the nearest second;
  \<^item> \<open>INCR\<close> creates an absent key with value 1 and no expiry, and keeps the expiry of an
    existing key;
  \<^item> \<open>EXPIRE\<close> sets the remaining time of an existing key;
  \<^item> \<open>DEL\<close> removes keys.

  Counter keys are written by \<open>INCR\<close> only, so their values are integers. The store keeps
  them exactly; the 64-bit range of \<open>INCR\<close> is not modelled.
\<close>

type_synonym key = string

record entry =
  num :: int
  expiry_ms :: "nat option"

type_synonym redis = "key \<rightharpoonup> entry"

definition GET :: "redis \<Rightarrow> key \<Rightarrow> int option" where
  "GET s k = map_option num (s k)"

definition TTL :: "redis \<Rightarrow> key \<Rightarrow> int" where
  "TTL s k =
     (case s k of
        None \<Rightarrow> - 2
      | Some e \<Rightarrow> (case expiry_ms e of None \<Rightarrow> - 1 | Some ms \<Rightarrow> int ((ms + 500) div 1000)))"

definition INCR :: "key \<Rightarrow> redis \<Rightarrow> int \<times> redis" where
  "INCR k s =
     (case s k of
        None \<Rightarrow> (1, s(k \<mapsto> \<lparr>num = 1, expiry_ms = None\<rparr>))
      | Some e \<Rightarrow> (num e + 1, s(k \<mapsto> e\<lparr>num := num e + 1\<rparr>)))"

definition EXPIRE :: "key \<Rightarrow> nat \<Rightarrow> redis \<Rightarrow> redis" where
  "EXPIRE k secs s =
     (case s k of
        None \<Rightarrow> s
      | Some e \<Rightarrow> (if secs = 0 then s(k := None) else s(k \<mapsto> e\<lparr>expiry_ms := Some (secs * 1000)\<rparr>)))"

definition DEL :: "key list \<Rightarrow> redis \<Rightarrow> redis" where
  "DEL ks s = (\<lambda>k. if k \<in> set ks then None else s k)"

text \<open>
  Expiry is driven by the store: after \<open>d\<close> milliseconds a key whose remaining time is at
  most \<open>d\<close> is gone, and every other expiring key has \<open>d\<close> milliseconds less to live.
\<close>

definition expires_within :: "nat \<Rightarrow> redis \<Rightarrow> key \<Rightarrow> bool" where
  "expires_within d s k =
     (case s k of
        None \<Rightarrow> False
      | Some e \<Rightarrow> (case expiry_ms e of None \<Rightarrow> False | Some ms \<Rightarrow> ms \<le> d))"

definition elapse :: "nat \<Rightarrow> redis \<Rightarrow> redis" where
  "elapse d s =
     (\<lambda>k. case s k of
            None \<Rightarrow> None
          | Some e \<Rightarrow>
              (case expiry_ms e of
                 None \<Rightarrow> Some e
               | Some ms \<Rightarrow> if ms \<le> d then None else Some (e\<lparr>expiry_ms := Some (ms - d)\<rparr>)))"

text \<open>The value a counter key stands for: 0 when the key is absent.\<close>

definition stored :: "redis \<Rightarrow> key \<Rightarrow> int" where
  "stored s k = (case GET s k of None \<Rightarrow> 0 | Some v \<Rightarrow> v)"



section \<open>Integers in Lua and JavaScript numbers\<close>

text \<open>
  Lua 5.1 and JavaScript compute with binary64. A cap that is an integer, a count the
  script reads with \<open>tonumber\<close> or \<open>getStatus\<close> reads with \<open>parseInt\<close>, and a difference of
  two such numbers are the nearest integer with 53 significant bits, ties to the even one.
  \<open>binary64 n\<close> is that integer: \<open>n\<close> itself up to \<open>2^53\<close>, and for instance \<open>2^53\<close> for
  \<open>2^53 + 1\<close>. Numbers of magnitude \<open>2^1024\<close> and more are outside the model.
\<close>

fun bits :: "nat \<Rightarrow> nat" where
  "bits n = (if n = 0 then 0 else Suc (bits (n div 2)))"

declare bits.simps [simp del]

definition nearest_even :: "nat \<Rightarrow> nat \<Rightarrow> nat" where
  "nearest_even q m =
     (let d = m div q; r = m mod q
      in if 2 * r < q \<or> (2 * r = q \<and> even d) then d * q else (d + 1) * q)"

definition round_nat :: "nat \<Rightarrow> nat" where
  "round_nat m = (if m < 2 ^ 53 then m else nearest_even (2 ^ (bits m - 53)) m)"

definition binary64 :: "int \<Rightarrow> int" where
  "binary64 n = (if n < 0 then - int (round_nat (nat (- n))) else int (round_nat (nat n)))"


section \<open>The rate limiter\<close>

record RateLimitPrefs =
  maxPerMinute :: int
  maxPerHour :: int

datatype limit = minute | hour

text \<open>
  \<open>getStatus\<close> returns a \<open>RateLimitResult\<close> without \<open>allowed\<close> and \<open>exceededLimit\<close>; the
  result record extends the status record by these two fields.
\<close>

record RateLimitStatus =
  remainingMinute :: int
  remainingHour :: int
  resetMinuteIn :: int
  resetHourIn :: int

record RateLimitResult = RateLimitStatus +
  allowed :: bool
  exceededLimit :: "limit option"

text \<open>
  \<open>REDIS_KEYS\<close> comes from the shared package; the limiter uses its two key builders,
  which are parameters of the model.
\<close>

record redis_keys =
  PUSH_RATE_MINUTE :: "string \<Rightarrow> key"
  PUSH_RATE_HOUR :: "string \<Rightarrow> key"

text \<open>
  The Lua script: one atomic step of the store. It replies
  \<open>(allowed, minuteCount, hourCount, minuteTTL, hourTTL, exceededLimit)\<close>.
\<close>

definition RATE_LIMIT_SCRIPT ::
  "key \<Rightarrow> key \<Rightarrow> int \<Rightarrow> int \<Rightarrow> redis \<Rightarrow> (int \<times> int \<times> int \<times> int \<times> int \<times> int) \<times> redis" where
  "RATE_LIMIT_SCRIPT minuteKey hourKey arg1 arg2 s =
     (let maxMinute = binary64 arg1;
          maxHour = binary64 arg2;
          minuteCount = binary64 (case GET s minuteKey of None \<Rightarrow> 0 | Some v \<Rightarrow> v);
          hourCount = binary64 (case GET s hourKey of None \<Rightarrow> 0 | Some v \<Rightarrow> v);
          minuteTTL = TTL s minuteKey;
          hourTTL = TTL s hourKey
      in if minuteCount \<ge> maxMinute then
           ((0, minuteCount, hourCount, minuteTTL, hourTTL, 1), s)
         else if hourCount \<ge> maxHour then
           ((0, minuteCount, hourCount, minuteTTL, hourTTL, 2), s)
         else
           (let (incr1, s1) = INCR minuteKey s;
                newMinuteCount = binary64 incr1;
                (minuteTTL', s2) =
                  (if minuteTTL < 0 then (60, EXPIRE minuteKey 60 s1) else (minuteTTL, s1));
                (incr2, s3) = INCR hourKey s2;
                newHourCount = binary64 incr2;
                (hourTTL', s4) =
                  (if hourTTL < 0 then (3600, EXPIRE hourKey 3600 s3) else (hourTTL, s3))
            in ((1, newMinuteCount, newHourCount, minuteTTL', hourTTL', 0), s4)))"

text \<open>
  \<open>checkAndRecord\<close> passes the caps to the script as the decimal strings of the numbers the
  preferences hold, which the script reads back with \<open>tonumber\<close>; its own subtractions are
  on those numbers and on the counts of the reply.
\<close>

definition checkAndRecord ::
  "redis_keys \<Rightarrow> string \<Rightarrow> RateLimitPrefs \<Rightarrow> redis \<Rightarrow> RateLimitResult \<times> redis" where
  "checkAndRecord K mobileSessionId prefs s =
     (let minuteKey = PUSH_RATE_MINUTE K mobileSessionId;
          hourKey = PUSH_RATE_HOUR K mobileSessionId;
          ((allowedN, minuteCount, hourCount, minuteTTL, hourTTL, exceeded), s') =
            RATE_LIMIT_SCRIPT minuteKey hourKey (maxPerMinute prefs) (maxPerHour prefs) s;
          remMinute = max 0 (binary64 (binary64 (maxPerMinute prefs) - minuteCount));
          remHour = max 0 (binary64 (binary64 (maxPerHour prefs) - hourCount));
          resetMinute = (if minuteTTL > 0 then minuteTTL else 60);
          resetHour = (if hourTTL > 0 then hourTTL else 3600)
      in if allowedN = 0 then
           (\<lparr>remainingMinute = (if exceeded = 1 then 0 else remMinute),
             remainingHour = (if exceeded = 2 then 0 else remHour),
             resetMinuteIn = resetMinute,
             resetHourIn = resetHour,
             allowed = False,
             exceededLimit = Some (if exceeded = 1 then minute else hour)\<rparr>, s')
         else
           (\<lparr>remainingMinute = remMinute,
             remainingHour = remHour,
             resetMinuteIn = resetMinute,
             resetHourIn = resetHour,
             allowed = True,
             exceededLimit = None\<rparr>, s'))"

definition getStatus :: "redis_keys \<Rightarrow> string \<Rightarrow> RateLimitPrefs \<Rightarrow> redis \<Rightarrow> RateLimitStatus" where
  "getStatus K mobileSessionId prefs s =
     (let minuteKey = PUSH_RATE_MINUTE K mobileSessionId;
          hourKey = PUSH_RATE_HOUR K mobileSessionId;
          minuteCount = binary64 (case GET s minuteKey of None \<Rightarrow> 0 | Some v \<Rightarrow> v);
          hourCount = binary64 (case GET s hourKey of None \<Rightarrow> 0 | Some v \<Rightarrow> v);
          minuteTTL = TTL s minuteKey;
          hourTTL = TTL s hourKey
      in \<lparr>remainingMinute = max 0 (binary64 (binary64 (maxPerMinute prefs) - minuteCount)),
          remainingHour = max 0 (binary64 (binary64 (maxPerHour prefs) - hourCount)),
          resetMinuteIn = (if minuteTTL > 0 then minuteTTL else 60),
          resetHourIn = (if hourTTL > 0 then hourTTL else 3600)\<rparr>)"

definition reset :: "redis_keys \<Rightarrow> string \<Rightarrow> redis \<Rightarrow> redis" where
  "reset K mobileSessionId s =
     DEL [PUSH_RATE_MINUTE K mobileSessionId, PUSH_RATE_HOUR K mobileSessionId] s"

text \<open>
  A history of one session: calls of \<open>checkAndRecord\<close> with the session's preferences,
  and time passing in between (in milliseconds). \<open>run\<close> gives the results of the calls in
  order and the store at the end.
\<close>

datatype event = Check | Elapse nat

fun run ::
  "redis_keys \<Rightarrow> string \<Rightarrow> RateLimitPrefs \<Rightarrow> redis \<Rightarrow> event list \<Rightarrow> RateLimitResult list \<times> redis" where
  "run K sid prefs s [] = ([], s)"
| "run K sid prefs s (Check # es) =
     (let (r, s') = checkAndRecord K sid prefs s;
          (rs, s'') = run K sid prefs s' es
      in (r # rs, s''))"
| "run K sid prefs s (Elapse d # es) = run K sid prefs (elapse d s) es"

definition allowedCount :: "RateLimitResult list \<Rightarrow> nat" where
  "allowedCount rs = length (filter allowed rs)"

text \<open>
  A history stays within one window of a key when no passing of time in it expires the
  key: the window that is open at the start, or that the first allowed call opens, is
  still open at the end.
\<close>

fun withinWindow :: "redis_keys \<Rightarrow> string \<Rightarrow> RateLimitPrefs \<Rightarrow> key \<Rightarrow> redis \<Rightarrow> event list \<Rightarrow> bool" where
  "withinWindow K sid prefs k s [] = True"
| "withinWindow K sid prefs k s (Check # es) =
     withinWindow K sid prefs k (snd (checkAndRecord K sid prefs s)) es"
| "withinWindow K sid prefs k s (Elapse d # es) =
     (\<not> expires_within d s k \<and> withinWindow K sid prefs k (elapse d s) es)"


text \<open>
  \<open>REDIS_KEYS\<close> is not part of the limiter. For the examples, one pair of key builders that
  differ in a prefix:
\<close>

definition sample_keys :: redis_keys where
  "sample_keys =
     \<lparr>PUSH_RATE_MINUTE = (\<lambda>sid. ''push:rate:minute:'' @ sid),
      PUSH_RATE_HOUR = (\<lambda>sid. ''push:rate:hour:'' @ sid)\<rparr>"


section \<open>JavaScript numbers and strings in the quiet-hours service\<close>

text \<open>
  The quiet-hours service turns strings such as \<open>"23:00"\<close> into numbers with
  \<open>split(':').map(Number)\<close> and computes \<open>hour * 60 + minute\<close> in binary64. The model tracks
  a number exactly where binary64 is exact: \<open>Num n\<close> is an integer of magnitude at most
  \<open>2^53 - 1\<close>. \<open>NaN\<close> is tracked as such. Every other number (a fraction, an infinity, an
  integer beyond \<open>2^53 - 1\<close>, or a result the model does not follow) is \<open>Untracked\<close>: it
  stands for any number, \<open>NaN\<close> included, and nothing is concluded from it.
\<close>

datatype jsnum = NaN | Num int | Untracked

definition MAX_SAFE_INTEGER :: int where
  "MAX_SAFE_INTEGER = 9007199254740991"

definition safe :: "int \<Rightarrow> jsnum" where
  "safe n = (if \<bar>n\<bar> \<le> MAX_SAFE_INTEGER then Num n else Untracked)"

fun js_times :: "jsnum \<Rightarrow> jsnum \<Rightarrow> jsnum" where
  "js_times NaN _ = NaN"
| "js_times _ NaN = NaN"
| "js_times (Num a) (Num b) = safe (a * b)"
| "js_times _ _ = Untracked"

fun js_plus :: "jsnum \<Rightarrow> jsnum \<Rightarrow> jsnum" where
  "js_plus NaN _ = NaN"
| "js_plus _ NaN = NaN"
| "js_plus (Num a) (Num b) = safe (a + b)"
| "js_plus _ _ = Untracked"

text \<open>
  A comparison with \<open>NaN\<close> is false; a comparison of two tracked integers is the
  comparison of the integers; any other comparison is not determined (\<open>None\<close>).
\<close>

fun js_gt :: "jsnum \<Rightarrow> jsnum \<Rightarrow> bool option" where
  "js_gt NaN _ = Some False"
| "js_gt _ NaN = Some False"
| "js_gt (Num a) (Num b) = Some (a > b)"
| "js_gt _ _ = None"

fun js_ge :: "jsnum \<Rightarrow> jsnum \<Rightarrow> bool option" where
  "js_ge NaN _ = Some False"
| "js_ge _ NaN = Some False"
| "js_ge (Num a) (Num b) = Some (a \<ge> b)"
| "js_ge _ _ = None"

fun js_le :: "jsnum \<Rightarrow> jsnum \<Rightarrow> bool option" where
  "js_le NaN _ = Some False"
| "js_le _ NaN = Some False"
| "js_le (Num a) (Num b) = Some (a \<le> b)"
| "js_le _ _ = None"

text \<open>
  \<open>a || b\<close> and \<open>a && b\<close> on comparisons, which have no effects: the result is determined
  as soon as one operand decides it.
\<close>

fun js_or :: "bool option \<Rightarrow> bool option \<Rightarrow> bool option" where
  "js_or (Some True) _ = Some True"
| "js_or (Some False) b = b"
| "js_or None (Some True) = Some True"
| "js_or None _ = None"

fun js_and :: "bool option \<Rightarrow> bool option \<Rightarrow> bool option" where
  "js_and (Some False) _ = Some False"
| "js_and (Some True) b = b"
| "js_and None (Some False) = Some False"
| "js_and None _ = None"

text \<open>
  \<open>Number(str)\<close>. Strings are sequences of code units below 256. \<open>Number\<close> strips white
  space from both ends and reads what is left as a \<open>StringNumericLiteral\<close> of ECMA-262:
  nothing (the number 0), a hex, octal or binary integer (\<open>0x1F\<close>), or an optionally signed
  decimal literal (\<open>Infinity\<close>, \<open>12\<close>, \<open>12.\<close>, \<open>12.5\<close>, \<open>.5\<close>, each but the first with an
  optional exponent). Anything else is \<open>NaN\<close>. The value is tracked for a string of decimal
  digits; the other literals are numbers whose value is not followed.
\<close>

definition is_space :: "char \<Rightarrow> bool" where
  "is_space c = ((of_char c :: nat) \<in> set [9, 10, 11, 12, 13, 32, 160])"

definition trim :: "string \<Rightarrow> string" where
  "trim str = rev (dropWhile is_space (rev (dropWhile is_space str)))"

definition is_digit :: "char \<Rightarrow> bool" where
  "is_digit c = (c \<in> set ''0123456789'')"

definition digit_value :: "char \<Rightarrow> nat" where
  "digit_value c = of_char c - 48"

definition decimal :: "string \<Rightarrow> nat" where
  "decimal str = foldl (\<lambda>n c. 10 * n + digit_value c) 0 str"

definition decimal_digits :: "string \<Rightarrow> bool" where
  "decimal_digits str = (str \<noteq> [] \<and> list_all is_digit str)"

definition exponent_part :: "string \<Rightarrow> bool" where
  "exponent_part str =
     (case str of
        [] \<Rightarrow> False
      | c # cs \<Rightarrow>
          c \<in> set ''eE'' \<and>
          (case cs of
             [] \<Rightarrow> False
           | d # ds \<Rightarrow> if d \<in> set ''+-'' then decimal_digits ds else decimal_digits cs))"

definition unsigned_decimal :: "string \<Rightarrow> bool" where
  "unsigned_decimal str =
     (let whole = takeWhile is_digit str;
          rest = dropWhile is_digit str
      in case rest of
           [] \<Rightarrow> whole \<noteq> []
         | c # cs \<Rightarrow>
             if c = CHR ''.'' then
               (let fraction = takeWhile is_digit cs;
                    rest' = dropWhile is_digit cs
                in (whole \<noteq> [] \<or> fraction \<noteq> []) \<and> (rest' = [] \<or> exponent_part rest'))
             else whole \<noteq> [] \<and> exponent_part rest)"

definition non_decimal :: "string \<Rightarrow> bool" where
  "non_decimal str =
     (case str of
        z # p # ds \<Rightarrow>
          z = CHR ''0'' \<and> ds \<noteq> [] \<and>
          (p \<in> set ''xX'' \<and> list_all (\<lambda>c. c \<in> set ''0123456789abcdefABCDEF'') ds \<or>
           p \<in> set ''oO'' \<and> list_all (\<lambda>c. c \<in> set ''01234567'') ds \<or>
           p \<in> set ''bB'' \<and> list_all (\<lambda>c. c \<in> set ''01'') ds)
      | _ \<Rightarrow> False)"

definition numeric_literal :: "string \<Rightarrow> bool" where
  "numeric_literal str =
     (non_decimal str \<or>
      (let body = (case str of [] \<Rightarrow> [] | c # cs \<Rightarrow> if c \<in> set ''+-'' then cs else str)
       in body = ''Infinity'' \<or> unsigned_decimal body))"

definition Number :: "string \<Rightarrow> jsnum" where
  "Number str =
     (let t = trim str
      in if list_all is_digit t then safe (int (decimal t))
         else if numeric_literal t then Untracked
         else NaN)"

text \<open>\<open>str.split(sep)\<close> for a separator of one character: the fields between separators.\<close>

fun split_on :: "char \<Rightarrow> string \<Rightarrow> string list" where
  "split_on sep [] = [[]]"
| "split_on sep (c # cs) =
     (if c = sep then [] # split_on sep cs
      else (case split_on sep cs of [] \<Rightarrow> [[c]] | p # ps \<Rightarrow> (c # p) # ps))"

text \<open>
  \<open>const [h, m] = str.split(':').map(Number)\<close> followed by \<open>h * 60 + m\<close>, which the service
  writes out three times. A missing element is \<open>undefined\<close>, which arithmetic turns into
  \<open>NaN\<close>.
\<close>

definition element :: "jsnum list \<Rightarrow> nat \<Rightarrow> jsnum option" where
  "element xs i = (if i < length xs then Some (xs ! i) else None)"

definition ToNumber :: "jsnum option \<Rightarrow> jsnum" where
  "ToNumber v = (case v of None \<Rightarrow> NaN | Some x \<Rightarrow> x)"

definition minutesOf :: "string \<Rightarrow> jsnum" where
  "minutesOf str =
     (let parts = map Number (split_on CHR '':'' str);
          h = element parts 0;
          m = element parts 1
      in js_plus (js_times (ToNumber h) (Num 60)) (ToNumber m))"


section \<open>The quiet-hours service\<close>

record QuietHoursPrefs =
  quietHoursEnabled :: bool
  quietHoursStart :: "string option"
  quietHoursEnd :: "string option"
  quietHoursTimezone :: string
  quietHoursOverrideCritical :: bool

datatype NotificationSeverity = low | warning | high

datatype eventType = session_started | session_stopped | server_down | server_up

text \<open>
  What the service reads from its runtime: the wall clock (\<open>new Date()\<close>, in milliseconds
  since the epoch) and \<open>Intl.DateTimeFormat\<close> with the options the service passes
  (\<open>en-US\<close>, two-digit hour and minute, \<open>hour12: false\<close>). For a time zone the constructor
  either throws a \<open>RangeError\<close> (\<open>None\<close>) or gives a formatter of instants.
\<close>

record runtime =
  wallClock :: int
  DateTimeFormat :: "string \<Rightarrow> (int \<Rightarrow> string) option"

text \<open>
  A call returns a value, or throws (the \<open>RangeError\<close> of the formatter in the \<open>catch\<close>
  block is not caught), or has a result the model does not determine because it depends
  on an untracked number.
\<close>

datatype 'a outcome = Returned 'a | Threw | Undetermined

definition of_comparison :: "bool option \<Rightarrow> bool outcome" where
  "of_comparison b = (case b of None \<Rightarrow> Undetermined | Some v \<Rightarrow> Returned v)"

text \<open>The \<open>try\<close>/\<open>catch\<close> of \<open>isQuietTime\<close>: the current time as the user's zone prints it.\<close>

definition userTime :: "runtime \<Rightarrow> QuietHoursPrefs \<Rightarrow> string option" where
  "userTime rt prefs =
     (let now = wallClock rt
      in case DateTimeFormat rt
                (if quietHoursTimezone prefs = [] then ''UTC'' else quietHoursTimezone prefs) of
           Some fmt \<Rightarrow> Some (fmt now)
         | None \<Rightarrow>
             (case DateTimeFormat rt ''UTC'' of
                Some fmt \<Rightarrow> Some (fmt now)
              | None \<Rightarrow> None))"

definition isQuietTime :: "runtime \<Rightarrow> QuietHoursPrefs \<Rightarrow> bool outcome" where
  "isQuietTime rt prefs =
     (if \<not> quietHoursEnabled prefs \<or> quietHoursStart prefs \<in> {None, Some []} \<or>
         quietHoursEnd prefs \<in> {None, Some []}
      then Returned False
      else
        (case userTime rt prefs of
           None \<Rightarrow> Threw
         | Some time \<Rightarrow>
             (let currentMinutes = minutesOf time;
                  startMinutes = minutesOf (case quietHoursStart prefs of Some str \<Rightarrow> str | None \<Rightarrow> []);
                  endMinutes = minutesOf (case quietHoursEnd prefs of Some str \<Rightarrow> str | None \<Rightarrow> [])
              in case js_gt startMinutes endMinutes of
                   None \<Rightarrow> Undetermined
                 | Some True \<Rightarrow>
                     of_comparison
                       (js_or (js_ge currentMinutes startMinutes) (js_le currentMinutes endMinutes))
                 | Some False \<Rightarrow>
                     of_comparison
                       (js_and (js_ge currentMinutes startMinutes) (js_le currentMinutes endMinutes)))))"

definition shouldSend :: "runtime \<Rightarrow> QuietHoursPrefs \<Rightarrow> NotificationSeverity \<Rightarrow> bool outcome" where
  "shouldSend rt prefs severity =
     (case isQuietTime rt prefs of
        Returned quiet \<Rightarrow>
          (if \<not> quiet then Returned True
           else if quietHoursOverrideCritical prefs \<and> severity = high then Returned True
           else Returned False)
      | Threw \<Rightarrow> Threw
      | Undetermined \<Rightarrow> Undetermined)"

definition shouldSendEvent :: "runtime \<Rightarrow> QuietHoursPrefs \<Rightarrow> eventType \<Rightarrow> bool outcome" where
  "shouldSendEvent rt prefs ev =
     (if ev = server_down then shouldSend rt prefs high else shouldSend rt prefs low)"

text \<open>
  For the examples, a runtime that knows the zone \<open>UTC\<close> only and prints an instant as
  \<open>HH:MM\<close> with hours from 00 to 23; \<open>at_utc h m\<close> is the instant \<open>h\<close> hours and \<open>m\<close>
  minutes after the epoch.
\<close>

definition two_digits :: "nat \<Rightarrow> string" where
  "two_digits n = [''0123456789'' ! ((n div 10) mod 10), ''0123456789'' ! (n mod 10)]"

definition print_utc :: "int \<Rightarrow> string" where
  "print_utc ms =
     two_digits (nat ((ms div 3600000) mod 24)) @ '':'' @ two_digits (nat ((ms div 60000) mod 60))"

definition utc_runtime :: "int \<Rightarrow> runtime" where
  "utc_runtime ms =
     \<lparr>wallClock = ms,
      DateTimeFormat = (\<lambda>tz. if tz = ''UTC'' then Some print_utc else None)\<rparr>"

definition at_utc :: "nat \<Rightarrow> nat \<Rightarrow> int" where
  "at_utc h m = int ((h * 60 + m) * 60000)"


text \<open>For the examples, preferences with quiet hours enabled in the zone \<open>UTC\<close>.\<close>

definition quiet_prefs :: "string \<Rightarrow> string \<Rightarrow> bool \<Rightarrow> QuietHoursPrefs" where
  "quiet_prefs a b override =
     \<lparr>quietHoursEnabled = True,
      quietHoursStart = Some a,
      quietHoursEnd = Some b,
      quietHoursTimezone = ''UTC'',
      quietHoursOverrideCritical = override\<rparr>"


section \<open>Facts about binary64\<close>

lemma bits_numeral:
  "bits (numeral (Num.Bit0 k)) = Suc (bits (numeral k))"
  "bits (numeral (Num.Bit1 k)) = Suc (bits (numeral k))"
  "bits (Suc 0) = 1"
  "bits 0 = 0"
proof -
  have "numeral (Num.Bit0 k) div 2 = (numeral k :: nat)" by simp
  then show "bits (numeral (Num.Bit0 k)) = Suc (bits (numeral k))"
    by (subst bits.simps) simp
  have "numeral (Num.Bit1 k) div 2 = (numeral k :: nat)" by simp
  then show "bits (numeral (Num.Bit1 k)) = Suc (bits (numeral k))"
    by (subst bits.simps) simp
  show zero: "bits 0 = 0" by (subst bits.simps) simp
  then show "bits (Suc 0) = 1" by (subst bits.simps) simp
qed

lemma bits_step: "0 < n \<Longrightarrow> bits n = Suc (bits (n div 2))"
  by (subst bits.simps) simp

lemma bits_bounds: "0 < m \<Longrightarrow> 2 ^ (bits m - 1) \<le> m \<and> m < 2 ^ bits m"
proof (induction m rule: bits.induct)
  case (1 n)
  show ?case
  proof (cases "n div 2 = 0")
    case True
    with "1.prems" have "n = Suc 0" by (simp add: div_eq_0_iff)
    then show ?thesis by (simp add: bits_numeral)
  next
    case False
    with "1.prems" "1.IH" have ih: "2 ^ (bits (n div 2) - 1) \<le> n div 2" "n div 2 < 2 ^ bits (n div 2)"
      by simp_all
    from False have pos: "0 < bits (n div 2)" by (simp add: bits_step)
    have b: "bits n = Suc (bits (n div 2))" using "1.prems" by (rule bits_step)
    from ih(1) have "2 * 2 ^ (bits (n div 2) - 1) \<le> n" by linarith
    moreover from pos have "2 * 2 ^ (bits (n div 2) - 1) = (2::nat) ^ bits (n div 2)"
      by (cases "bits (n div 2)") simp_all
    moreover from ih(2) have "n < 2 * 2 ^ bits (n div 2)" by linarith
    ultimately show ?thesis unfolding b by simp
  qed
qed

lemma bits_mono: "a \<le> b \<Longrightarrow> bits a \<le> bits b"
proof (rule ccontr)
  assume ab: "a \<le> b" and "\<not> bits a \<le> bits b"
  then have lt: "bits b < bits a" by simp
  then have apos: "0 < a" by (cases "a = 0") (simp_all add: bits_numeral)
  show False
  proof (cases "b = 0")
    case True
    with ab apos show False by simp
  next
    case False
    then have "b < 2 ^ bits b" using bits_bounds by simp
    also from lt have "(2::nat) ^ bits b \<le> 2 ^ (bits a - 1)" by (intro power_increasing) simp_all
    also from apos have "\<dots> \<le> a" using bits_bounds by simp
    finally show False using ab by simp
  qed
qed

lemma nearest_even_bounds:
  assumes "0 < q"
  shows "(m div q) * q \<le> nearest_even q m" and "nearest_even q m \<le> (m div q + 1) * q"
  by (simp_all add: nearest_even_def Let_def)

lemma nearest_even_mono:
  assumes "0 < q" and "a \<le> b"
  shows "nearest_even q a \<le> nearest_even q b"
proof (cases "a div q = b div q")
  case True
  from assms(2) True have "a mod q \<le> b mod q"
    by (metis add_le_cancel_left mult_div_mod_eq)
  with True show ?thesis by (auto simp: nearest_even_def Let_def)
next
  case False
  with assms(2) have "a div q < b div q"
    by (simp add: div_le_mono le_neq_implies_less)
  then have "Suc (a div q) \<le> b div q" by simp
  then have "Suc (a div q) * q \<le> (b div q) * q" by (rule mult_le_mono1)
  then have "(a div q + 1) * q \<le> (b div q) * q" by simp
  with nearest_even_bounds(2) [OF assms(1), of a] nearest_even_bounds(1) [OF assms(1), of b]
  show ?thesis by (meson order_trans)
qed

lemma round_nat_range:
  assumes "2 ^ 53 \<le> m"
  shows "2 ^ (bits m - 1) \<le> round_nat m" and "round_nat m \<le> 2 ^ bits m" and "54 \<le> bits m"
proof -
  from assms have pos: "0 < m" by (simp add: less_le_trans [of 0 "2 ^ 53"])
  note b = bits_bounds [OF pos]
  show k: "54 \<le> bits m"
  proof (rule ccontr)
    assume "\<not> 54 \<le> bits m"
    then have "bits m \<le> 53" by simp
    then have "(2::nat) ^ bits m \<le> 2 ^ 53" by (intro power_increasing) simp_all
    with b assms show False by simp
  qed
  define q :: nat where "q = 2 ^ (bits m - 53)"
  have q: "0 < q" by (simp add: q_def)
  have r: "round_nat m = nearest_even q m" using assms by (simp add: round_nat_def q_def)
  from k have e1: "bits m - 1 = 52 + (bits m - 53)" and e2: "bits m = 53 + (bits m - 53)"
    by simp_all
  have split1: "(2::nat) ^ (bits m - 1) = 2 ^ 52 * q"
    unfolding q_def by (subst e1) (rule power_add)
  have split2: "(2::nat) ^ bits m = 2 ^ 53 * q"
    unfolding q_def by (subst e2) (rule power_add)
  from b [unfolded split1 split2] have "2 ^ 52 * q \<le> m" "m < 2 ^ 53 * q" by simp_all
  then have d: "2 ^ 52 \<le> m div q" "m div q < 2 ^ 53"
    using q by (simp_all add: less_eq_div_iff_mult_less_eq div_less_iff_less_mult)
  from d(1) have "2 ^ 52 * q \<le> (m div q) * q" by (rule mult_le_mono1)
  also have "\<dots> \<le> nearest_even q m" by (rule nearest_even_bounds(1) [OF q])
  finally show "2 ^ (bits m - 1) \<le> round_nat m" unfolding r split1 .
  from d(2) have "Suc (m div q) \<le> 2 ^ 53" by simp
  then have "Suc (m div q) * q \<le> 2 ^ 53 * q" by (rule mult_le_mono1)
  then have up: "(m div q + 1) * q \<le> 2 ^ 53 * q" by simp
  have "nearest_even q m \<le> (m div q + 1) * q" by (rule nearest_even_bounds(2) [OF q])
  also note up
  finally show "round_nat m \<le> 2 ^ bits m" unfolding r split2 .
qed

lemma round_nat_mono:
  assumes "a \<le> b"
  shows "round_nat a \<le> round_nat b"
proof (cases "a < 2 ^ 53")
  case small: True
  show ?thesis
  proof (cases "b < 2 ^ 53")
    case True
    with small assms show ?thesis by (simp add: round_nat_def)
  next
    case False
    then have big: "2 ^ 53 \<le> b" by simp
    from round_nat_range(3) [OF big] have "(2::nat) ^ 53 \<le> 2 ^ (bits b - 1)"
      by (intro power_increasing) simp_all
    with round_nat_range(1) [OF big] small show ?thesis by (simp add: round_nat_def)
  qed
next
  case False
  then have a: "2 ^ 53 \<le> a" by simp
  with assms have b: "2 ^ 53 \<le> b" by simp
  show ?thesis
  proof (cases "bits a = bits b")
    case True
    with a b nearest_even_mono [OF _ assms, of "2 ^ (bits b - 53)"] show ?thesis
      by (simp add: round_nat_def)
  next
    case False
    with bits_mono [OF assms] have "bits a \<le> bits b - 1" by simp
    then have "(2::nat) ^ bits a \<le> 2 ^ (bits b - 1)" by (intro power_increasing) simp_all
    with round_nat_range(2) [OF a] round_nat_range(1) [OF b] show ?thesis
      by (meson order_trans)
  qed
qed

lemma round_nat_0: "round_nat 0 = 0"
  by (simp add: round_nat_def)

lemma binary64_mono: "a \<le> b \<Longrightarrow> binary64 a \<le> binary64 b"
proof -
  assume ab: "a \<le> b"
  consider "b < 0" | "a < 0" "0 \<le> b" | "0 \<le> a" by linarith
  then show ?thesis
  proof cases
    case 1
    with ab have "nat (- b) \<le> nat (- a)" by simp
    from round_nat_mono [OF this] 1 ab show ?thesis by (simp add: binary64_def)
  next
    case 2
    then show ?thesis by (simp add: binary64_def)
  next
    case 3
    with ab have "nat a \<le> nat b" by simp
    from round_nat_mono [OF this] 3 ab show ?thesis by (simp add: binary64_def)
  qed
qed

lemma bits_power: "bits (2 ^ k) = Suc k"
  by (induction k) (simp_all add: bits_numeral bits_step)

lemma round_nat_exact: "m \<le> 2 ^ 53 \<Longrightarrow> round_nat m = m"
proof (cases "m = 2 ^ 53")
  case True
  have "bits (2 ^ 53) - 53 = 1" by (simp only: bits_power; simp)
  then have "round_nat (2 ^ 53) = nearest_even (2 ^ 1) (2 ^ 53)" by (simp only: round_nat_def; simp)
  then have "round_nat (2 ^ 53) = nearest_even 2 (2 ^ 53)" by simp
  also have "\<dots> = 2 ^ 53" by (simp add: nearest_even_def Let_def)
  finally show ?thesis using True by simp
next
  case False
  moreover assume "m \<le> 2 ^ 53"
  ultimately show ?thesis by (simp add: round_nat_def)
qed

lemma binary64_exact: "\<bar>n\<bar> \<le> 9007199254740992 \<Longrightarrow> binary64 n = n"
proof -
  assume "\<bar>n\<bar> \<le> 9007199254740992"
  then have "nat \<bar>n\<bar> \<le> 2 ^ 53" by simp
  then have "nat (- n) \<le> 2 ^ 53" "nat n \<le> 2 ^ 53" by simp_all
  then show ?thesis by (simp add: binary64_def round_nat_exact)
qed

lemma binary64_examples:
  "binary64 9007199254740993 = 9007199254740992"
  "binary64 9007199254740994 = 9007199254740994"
  by (simp_all add: binary64_def round_nat_def nearest_even_def bits_numeral)


lemma binary64_less_imp_less: "binary64 a < binary64 b \<Longrightarrow> a < b"
  using binary64_mono [of b a] by (cases "a < b") simp_all

lemma binary64_0: "binary64 0 = 0"
  by (simp add: binary64_exact)

lemma max0_binary64_nonpositive: "x \<le> 0 \<Longrightarrow> max 0 (binary64 x) = 0"
  using binary64_mono [of x 0] by (simp add: binary64_0)


section \<open>Facts about the script and the call\<close>

lemma stored_simps:
  "stored s k = (case s k of None \<Rightarrow> 0 | Some e \<Rightarrow> num e)"
  by (simp add: stored_def GET_def split: option.splits)

lemma checkAndRecord_minute_exceeded:
  assumes "binary64 (maxPerMinute prefs) \<le> binary64 (stored s (PUSH_RATE_MINUTE K sid))"
  shows "checkAndRecord K sid prefs s =
    (\<lparr>remainingMinute = 0,
      remainingHour =
        max 0 (binary64 (binary64 (maxPerHour prefs) - binary64 (stored s (PUSH_RATE_HOUR K sid)))),
      resetMinuteIn = (if TTL s (PUSH_RATE_MINUTE K sid) > 0 then TTL s (PUSH_RATE_MINUTE K sid) else 60),
      resetHourIn = (if TTL s (PUSH_RATE_HOUR K sid) > 0 then TTL s (PUSH_RATE_HOUR K sid) else 3600),
      allowed = False, exceededLimit = Some minute\<rparr>, s)"
  using assms by (simp add: checkAndRecord_def RATE_LIMIT_SCRIPT_def stored_def Let_def)

lemma checkAndRecord_hour_exceeded:
  assumes "binary64 (stored s (PUSH_RATE_MINUTE K sid)) < binary64 (maxPerMinute prefs)"
    and "binary64 (maxPerHour prefs) \<le> binary64 (stored s (PUSH_RATE_HOUR K sid))"
  shows "checkAndRecord K sid prefs s =
    (\<lparr>remainingMinute =
        max 0 (binary64 (binary64 (maxPerMinute prefs) - binary64 (stored s (PUSH_RATE_MINUTE K sid)))),
      remainingHour = 0,
      resetMinuteIn = (if TTL s (PUSH_RATE_MINUTE K sid) > 0 then TTL s (PUSH_RATE_MINUTE K sid) else 60),
      resetHourIn = (if TTL s (PUSH_RATE_HOUR K sid) > 0 then TTL s (PUSH_RATE_HOUR K sid) else 3600),
      allowed = False, exceededLimit = Some hour\<rparr>, s)"
  using assms by (simp add: checkAndRecord_def RATE_LIMIT_SCRIPT_def stored_def Let_def)

lemma checkAndRecord_under_allowed:
  assumes "binary64 (stored s (PUSH_RATE_MINUTE K sid)) < binary64 (maxPerMinute prefs)"
    and "binary64 (stored s (PUSH_RATE_HOUR K sid)) < binary64 (maxPerHour prefs)"
  shows "allowed (fst (checkAndRecord K sid prefs s))"
    and "exceededLimit (fst (checkAndRecord K sid prefs s)) = None"
  using assms
  by (simp_all add: checkAndRecord_def RATE_LIMIT_SCRIPT_def stored_def Let_def split: prod.splits)

lemma stored_INCR_same: "stored (snd (INCR k s)) k = stored s k + 1"
  by (simp add: INCR_def stored_simps split: option.splits)

lemma stored_INCR_other: "k' \<noteq> k \<Longrightarrow> stored (snd (INCR k s)) k' = stored s k'"
  by (simp add: INCR_def stored_simps split: option.splits)

lemma fst_INCR: "fst (INCR k s) = stored s k + 1"
  by (simp add: INCR_def stored_simps split: option.splits)

lemma stored_EXPIRE: "0 < n \<Longrightarrow> stored (EXPIRE k n s) k' = stored s k'"
  by (simp add: EXPIRE_def stored_simps split: option.splits)

lemma stored_elapse:
  "\<not> expires_within d s k \<Longrightarrow> stored (elapse d s) k = stored s k"
  by (simp add: expires_within_def elapse_def stored_simps split: option.splits)

lemma script_allowed_counts:
  assumes "binary64 (stored s mk) < binary64 mm" "binary64 (stored s hk) < binary64 mh" "mk \<noteq> hk"
  shows "stored (snd (RATE_LIMIT_SCRIPT mk hk mm mh s)) mk = stored s mk + 1"
    and "stored (snd (RATE_LIMIT_SCRIPT mk hk mm mh s)) hk = stored s hk + 1"
    and "fst (snd (fst (RATE_LIMIT_SCRIPT mk hk mm mh s))) = binary64 (stored s mk + 1)"
    and "fst (snd (snd (fst (RATE_LIMIT_SCRIPT mk hk mm mh s)))) = binary64 (stored s hk + 1)"
  using assms
  by (simp_all add: RATE_LIMIT_SCRIPT_def stored_def[symmetric] Let_def split_beta
      stored_INCR_same stored_INCR_other stored_EXPIRE fst_INCR)

lemma checkAndRecord_allowed_iff:
  "allowed (fst (checkAndRecord K sid prefs s)) \<longleftrightarrow>
     binary64 (stored s (PUSH_RATE_MINUTE K sid)) < binary64 (maxPerMinute prefs) \<and>
     binary64 (stored s (PUSH_RATE_HOUR K sid)) < binary64 (maxPerHour prefs)"
proof (cases "binary64 (maxPerMinute prefs) \<le> binary64 (stored s (PUSH_RATE_MINUTE K sid))")
  case True
  then show ?thesis by (simp add: checkAndRecord_minute_exceeded)
next
  case below: False
  show ?thesis
  proof (cases "binary64 (maxPerHour prefs) \<le> binary64 (stored s (PUSH_RATE_HOUR K sid))")
    case True
    with below show ?thesis by (simp add: checkAndRecord_hour_exceeded)
  next
    case False
    with below show ?thesis by (simp add: checkAndRecord_under_allowed)
  qed
qed

lemma checkAndRecord_allowed_below:
  assumes "allowed (fst (checkAndRecord K sid prefs s))"
  shows "stored s (PUSH_RATE_MINUTE K sid) < maxPerMinute prefs"
    and "stored s (PUSH_RATE_HOUR K sid) < maxPerHour prefs"
  using assms unfolding checkAndRecord_allowed_iff
  by (simp_all add: binary64_less_imp_less)

lemma checkAndRecord_store:
  "snd (checkAndRecord K sid prefs s) =
     snd (RATE_LIMIT_SCRIPT (PUSH_RATE_MINUTE K sid) (PUSH_RATE_HOUR K sid)
            (maxPerMinute prefs) (maxPerHour prefs) s)"
  by (simp add: checkAndRecord_def Let_def split: prod.splits)

lemma checkAndRecord_denied_store:
  "\<not> allowed (fst (checkAndRecord K sid prefs s)) \<Longrightarrow> snd (checkAndRecord K sid prefs s) = s"
  unfolding checkAndRecord_allowed_iff
  by (cases "binary64 (maxPerMinute prefs) \<le> binary64 (stored s (PUSH_RATE_MINUTE K sid))")
     (auto simp: checkAndRecord_minute_exceeded checkAndRecord_hour_exceeded)

lemma checkAndRecord_allowed_stored:
  assumes "allowed (fst (checkAndRecord K sid prefs s))"
    and "PUSH_RATE_MINUTE K sid \<noteq> PUSH_RATE_HOUR K sid"
  shows "stored (snd (checkAndRecord K sid prefs s)) (PUSH_RATE_MINUTE K sid) =
           stored s (PUSH_RATE_MINUTE K sid) + 1"
    and "stored (snd (checkAndRecord K sid prefs s)) (PUSH_RATE_HOUR K sid) =
           stored s (PUSH_RATE_HOUR K sid) + 1"
  using assms unfolding checkAndRecord_allowed_iff checkAndRecord_store
  by (simp_all add: script_allowed_counts)

lemma allowedCount_Cons:
  "allowedCount (r # rs) = (if allowed r then Suc (allowedCount rs) else allowedCount rs)"
  by (simp add: allowedCount_def)

lemma allowedCount_Nil: "allowedCount [] = 0"
  by (simp add: allowedCount_def)

lemma run_Check:
  "fst (run K sid prefs s (Check # es)) =
     fst (checkAndRecord K sid prefs s) # fst (run K sid prefs (snd (checkAndRecord K sid prefs s)) es)"
  by (simp add: split_beta)

lemma minute_budget:
  assumes "PUSH_RATE_MINUTE K sid \<noteq> PUSH_RATE_HOUR K sid"
    and "withinWindow K sid prefs (PUSH_RATE_MINUTE K sid) s es"
  shows "int (allowedCount (fst (run K sid prefs s es))) \<le>
           max 0 (maxPerMinute prefs - stored s (PUSH_RATE_MINUTE K sid))"
  using assms(2)
proof (induction es arbitrary: s)
  case Nil
  show ?case by (simp add: allowedCount_Nil)
next
  case (Cons e es)
  show ?case
  proof (cases e)
    case Check
    let ?c = "checkAndRecord K sid prefs s"
    from Cons.prems Check
    have w: "withinWindow K sid prefs (PUSH_RATE_MINUTE K sid) (snd ?c) es" by simp
    note ih = Cons.IH [OF w]
    show ?thesis
    proof (cases "allowed (fst ?c)")
      case True
      then have below: "stored s (PUSH_RATE_MINUTE K sid) < maxPerMinute prefs"
        by (rule checkAndRecord_allowed_below)
      from True assms(1)
      have "stored (snd ?c) (PUSH_RATE_MINUTE K sid) = stored s (PUSH_RATE_MINUTE K sid) + 1"
        by (rule checkAndRecord_allowed_stored(1))
      with ih below True show ?thesis
        unfolding Check run_Check allowedCount_Cons by simp
    next
      case False
      then have "snd ?c = s" by (rule checkAndRecord_denied_store)
      with ih False show ?thesis
        unfolding Check run_Check allowedCount_Cons by simp
    qed
  next
    case (Elapse d)
    with Cons.prems
    have alive: "\<not> expires_within d s (PUSH_RATE_MINUTE K sid)"
      and w: "withinWindow K sid prefs (PUSH_RATE_MINUTE K sid) (elapse d s) es"
      by simp_all
    from Cons.IH [OF w] stored_elapse [OF alive] show ?thesis
      unfolding Elapse by simp
  qed
qed


lemma hour_budget:
  assumes "PUSH_RATE_MINUTE K sid \<noteq> PUSH_RATE_HOUR K sid"
    and "withinWindow K sid prefs (PUSH_RATE_HOUR K sid) s es"
  shows "int (allowedCount (fst (run K sid prefs s es))) \<le>
           max 0 (maxPerHour prefs - stored s (PUSH_RATE_HOUR K sid))"
  using assms(2)
proof (induction es arbitrary: s)
  case Nil
  show ?case by (simp add: allowedCount_Nil)
next
  case (Cons e es)
  show ?case
  proof (cases e)
    case Check
    let ?c = "checkAndRecord K sid prefs s"
    from Cons.prems Check
    have w: "withinWindow K sid prefs (PUSH_RATE_HOUR K sid) (snd ?c) es" by simp
    note ih = Cons.IH [OF w]
    show ?thesis
    proof (cases "allowed (fst ?c)")
      case True
      then have below: "stored s (PUSH_RATE_HOUR K sid) < maxPerHour prefs"
        by (rule checkAndRecord_allowed_below)
      from True assms(1)
      have "stored (snd ?c) (PUSH_RATE_HOUR K sid) = stored s (PUSH_RATE_HOUR K sid) + 1"
        by (rule checkAndRecord_allowed_stored(2))
      with ih below True show ?thesis
        unfolding Check run_Check allowedCount_Cons by simp
    next
      case False
      then have "snd ?c = s" by (rule checkAndRecord_denied_store)
      with ih False show ?thesis
        unfolding Check run_Check allowedCount_Cons by simp
    qed
  next
    case (Elapse d)
    with Cons.prems
    have alive: "\<not> expires_within d s (PUSH_RATE_HOUR K sid)"
      and w: "withinWindow K sid prefs (PUSH_RATE_HOUR K sid) (elapse d s) es"
      by simp_all
    from Cons.IH [OF w] stored_elapse [OF alive] show ?thesis
      unfolding Elapse by simp
  qed
qed

lemma sample_keys_simps:
  "PUSH_RATE_MINUTE sample_keys sid = ''push:rate:minute:'' @ sid"
  "PUSH_RATE_HOUR sample_keys sid = ''push:rate:hour:'' @ sid"
  by (simp_all add: sample_keys_def)

lemmas store_eval =
  checkAndRecord_def RATE_LIMIT_SCRIPT_def getStatus_def GET_def TTL_def INCR_def EXPIRE_def
  elapse_def expires_within_def stored_def allowedCount_def Let_def sample_keys_simps
  binary64_exact

section \<open>The claims about the rate limiter\<close>

text \<open>
  Claim C1. Take the calls of \<open>checkAndRecord\<close> of one session, with caps that are not
  negative, from a store whose two counters are not negative. In a history during which
  the minute key does not expire, at most \<open>maxPerMinute\<close> calls are allowed; in a history
  during which the hour key does not expire (the minute key may), at most \<open>maxPerHour\<close>.
  A call changes the store only when both counts it read were strictly below their caps.
\<close>

theorem allowed_calls_within_caps:
  assumes keys: "PUSH_RATE_MINUTE K sid \<noteq> PUSH_RATE_HOUR K sid"
    and caps: "0 \<le> maxPerMinute prefs" "0 \<le> maxPerHour prefs"
    and counters: "0 \<le> stored s (PUSH_RATE_MINUTE K sid)" "0 \<le> stored s (PUSH_RATE_HOUR K sid)"
  shows "(withinWindow K sid prefs (PUSH_RATE_MINUTE K sid) s es \<longrightarrow>
            int (allowedCount (fst (run K sid prefs s es))) \<le> maxPerMinute prefs) \<and>
         (withinWindow K sid prefs (PUSH_RATE_HOUR K sid) s es \<longrightarrow>
            int (allowedCount (fst (run K sid prefs s es))) \<le> maxPerHour prefs) \<and>
         (snd (checkAndRecord K sid prefs t) \<noteq> t \<longrightarrow>
            stored t (PUSH_RATE_MINUTE K sid) < maxPerMinute prefs \<and>
            stored t (PUSH_RATE_HOUR K sid) < maxPerHour prefs)"
proof (intro conjI impI)
  assume "withinWindow K sid prefs (PUSH_RATE_MINUTE K sid) s es"
  from minute_budget [OF keys this] caps(1) counters(1)
  show "int (allowedCount (fst (run K sid prefs s es))) \<le> maxPerMinute prefs" by simp
next
  assume "withinWindow K sid prefs (PUSH_RATE_HOUR K sid) s es"
  from hour_budget [OF keys this] caps(2) counters(2)
  show "int (allowedCount (fst (run K sid prefs s es))) \<le> maxPerHour prefs" by simp
next
  assume changed: "snd (checkAndRecord K sid prefs t) \<noteq> t"
  then have a: "allowed (fst (checkAndRecord K sid prefs t))"
    using checkAndRecord_denied_store by blast
  then show "stored t (PUSH_RATE_MINUTE K sid) < maxPerMinute prefs"
    by (rule checkAndRecord_allowed_below)
  from a show "stored t (PUSH_RATE_HOUR K sid) < maxPerHour prefs"
    by (rule checkAndRecord_allowed_below)
qed


text \<open>
  With caps 2 and 3 on the empty store: two of three calls within one minute are allowed,
  and three of five calls within one hour, the minute window expiring in between.
\<close>

theorem allowed_calls_within_caps_witness:
  "PUSH_RATE_MINUTE sample_keys ''d'' \<noteq> PUSH_RATE_HOUR sample_keys ''d'' \<and>
   withinWindow sample_keys ''d'' \<lparr>maxPerMinute = 2, maxPerHour = 3\<rparr>
     (PUSH_RATE_MINUTE sample_keys ''d'') Map.empty [Check, Check, Elapse 30000, Check] \<and>
   allowedCount (fst (run sample_keys ''d'' \<lparr>maxPerMinute = 2, maxPerHour = 3\<rparr> Map.empty
     [Check, Check, Elapse 30000, Check])) = 2 \<and>
   withinWindow sample_keys ''d'' \<lparr>maxPerMinute = 2, maxPerHour = 3\<rparr>
     (PUSH_RATE_HOUR sample_keys ''d'') Map.empty [Check, Check, Check, Elapse 60000, Check, Check] \<and>
   allowedCount (fst (run sample_keys ''d'' \<lparr>maxPerMinute = 2, maxPerHour = 3\<rparr> Map.empty
     [Check, Check, Check, Elapse 60000, Check, Check])) = 3"
  using allowed_calls_within_caps
    [of sample_keys "''d''" "\<lparr>maxPerMinute = 2, maxPerHour = 3\<rparr>" Map.empty
        "[Check, Check, Elapse 30000, Check]" Map.empty]
    allowed_calls_within_caps
    [of sample_keys "''d''" "\<lparr>maxPerMinute = 2, maxPerHour = 3\<rparr>" Map.empty
        "[Check, Check, Check, Elapse 60000, Check, Check]" Map.empty]
  by (simp add: store_eval)

text \<open>
  Claim C2. A call that is not allowed returns the store it was given: the counts and the
  remaining times of both keys are what they were.
\<close>

theorem denied_check_leaves_store:
  assumes "checkAndRecord K sid prefs s = (r, s')"
    and "\<not> allowed r"
  shows "s' = s \<and>
         GET s' (PUSH_RATE_MINUTE K sid) = GET s (PUSH_RATE_MINUTE K sid) \<and>
         GET s' (PUSH_RATE_HOUR K sid) = GET s (PUSH_RATE_HOUR K sid) \<and>
         TTL s' (PUSH_RATE_MINUTE K sid) = TTL s (PUSH_RATE_MINUTE K sid) \<and>
         TTL s' (PUSH_RATE_HOUR K sid) = TTL s (PUSH_RATE_HOUR K sid)"
proof -
  from assms have "\<not> allowed (fst (checkAndRecord K sid prefs s))" by simp
  then have "snd (checkAndRecord K sid prefs s) = s" by (rule checkAndRecord_denied_store)
  with assms(1) have "s' = s" by simp
  then show ?thesis by simp
qed


text \<open>
  With a minute cap of 1, the second call is denied and leaves the store of the first; the
  minute count is still 1 after it.
\<close>

theorem denied_check_leaves_store_witness:
  "\<not> allowed (fst (checkAndRecord sample_keys ''d'' \<lparr>maxPerMinute = 1, maxPerHour = 5\<rparr>
       (snd (run sample_keys ''d'' \<lparr>maxPerMinute = 1, maxPerHour = 5\<rparr> Map.empty [Check])))) \<and>
   snd (checkAndRecord sample_keys ''d'' \<lparr>maxPerMinute = 1, maxPerHour = 5\<rparr>
       (snd (run sample_keys ''d'' \<lparr>maxPerMinute = 1, maxPerHour = 5\<rparr> Map.empty [Check]))) =
     snd (run sample_keys ''d'' \<lparr>maxPerMinute = 1, maxPerHour = 5\<rparr> Map.empty [Check]) \<and>
   GET (snd (run sample_keys ''d'' \<lparr>maxPerMinute = 1, maxPerHour = 5\<rparr> Map.empty [Check, Check]))
     ''push:rate:minute:d'' = Some 1"
  using denied_check_leaves_store
    [of sample_keys "''d''" "\<lparr>maxPerMinute = 1, maxPerHour = 5\<rparr>"
        "snd (run sample_keys ''d'' \<lparr>maxPerMinute = 1, maxPerHour = 5\<rparr> Map.empty [Check])"
        "fst (checkAndRecord sample_keys ''d'' \<lparr>maxPerMinute = 1, maxPerHour = 5\<rparr>
          (snd (run sample_keys ''d'' \<lparr>maxPerMinute = 1, maxPerHour = 5\<rparr> Map.empty [Check])))"
        "snd (checkAndRecord sample_keys ''d'' \<lparr>maxPerMinute = 1, maxPerHour = 5\<rparr>
          (snd (run sample_keys ''d'' \<lparr>maxPerMinute = 1, maxPerHour = 5\<rparr> Map.empty [Check])))"]
  by (simp add: store_eval)

lemma getStatus_fields:
  "remainingMinute (getStatus K sid prefs s) =
     max 0 (binary64 (binary64 (maxPerMinute prefs) - binary64 (stored s (PUSH_RATE_MINUTE K sid))))"
  "remainingHour (getStatus K sid prefs s) =
     max 0 (binary64 (binary64 (maxPerHour prefs) - binary64 (stored s (PUSH_RATE_HOUR K sid))))"
  "resetMinuteIn (getStatus K sid prefs s) =
     (if TTL s (PUSH_RATE_MINUTE K sid) > 0 then TTL s (PUSH_RATE_MINUTE K sid) else 60)"
  "resetHourIn (getStatus K sid prefs s) =
     (if TTL s (PUSH_RATE_HOUR K sid) > 0 then TTL s (PUSH_RATE_HOUR K sid) else 3600)"
  by (simp_all add: getStatus_def stored_def Let_def)

lemma exact_difference:
  assumes "0 \<le> c" and "c \<le> 9007199254740992" and "0 \<le> m" and "m \<le> 9007199254740992"
  shows "binary64 (binary64 m - binary64 c) = m - c"
proof -
  from assms have "binary64 m = m" "binary64 c = c" by (simp_all add: binary64_exact)
  moreover from assms have "binary64 (m - c) = m - c" by (intro binary64_exact) simp
  ultimately show ?thesis by simp
qed

text \<open>
  Claim C3 says that a denial reports, for the window it does not name, the value
  \<open>max(0, cap - count)\<close>. The service computes it in binary64. With a minute cap of 1 and an
  hour cap of \<open>2^53 + 2\<close>, the second call is denied for the minute; the hour count is 1 and
  the hour budget is \<open>2^53 + 1\<close>, and the denial reports \<open>2^53\<close>.
\<close>

theorem large_cap_remaining_is_rounded:
  "\<not> allowed (fst (checkAndRecord sample_keys ''d''
      \<lparr>maxPerMinute = 1, maxPerHour = 9007199254740994\<rparr>
      (snd (run sample_keys ''d'' \<lparr>maxPerMinute = 1, maxPerHour = 9007199254740994\<rparr>
         Map.empty [Check])))) \<and>
   exceededLimit (fst (checkAndRecord sample_keys ''d''
      \<lparr>maxPerMinute = 1, maxPerHour = 9007199254740994\<rparr>
      (snd (run sample_keys ''d'' \<lparr>maxPerMinute = 1, maxPerHour = 9007199254740994\<rparr>
         Map.empty [Check])))) = Some minute \<and>
   remainingHour (fst (checkAndRecord sample_keys ''d''
      \<lparr>maxPerMinute = 1, maxPerHour = 9007199254740994\<rparr>
      (snd (run sample_keys ''d'' \<lparr>maxPerMinute = 1, maxPerHour = 9007199254740994\<rparr>
         Map.empty [Check])))) = 9007199254740992 \<and>
   max 0 (maxPerHour \<lparr>maxPerMinute = 1, maxPerHour = 9007199254740994\<rparr> -
          stored (snd (run sample_keys ''d'' \<lparr>maxPerMinute = 1, maxPerHour = 9007199254740994\<rparr>
            Map.empty [Check])) (PUSH_RATE_HOUR sample_keys ''d'')) = 9007199254740993"
  by (simp add: store_eval binary64_examples)

text \<open>
  Claim C3 as the service has it. The minute cap is tested first: a call that finds the
  minute count at its cap is denied with \<open>exceededLimit = minute\<close> whatever the hour count
  is, and a call is denied with \<open>exceededLimit = hour\<close> exactly when the minute count is
  below its cap and the hour count is at its cap. A denial reports 0 for the window it
  names and, for the other window, the value \<open>Math.max(0, cap - count)\<close> that \<open>getStatus\<close>
  reports. Counts and caps are compared and subtracted as binary64; for caps and counts
  from 0 to \<open>2^53\<close> these are the integers themselves and the value is
  \<open>max 0 (cap - count)\<close>.
\<close>

theorem minute_checked_before_hour:
  assumes "checkAndRecord K sid prefs s = (r, s')"
  shows "(binary64 (maxPerMinute prefs) \<le> binary64 (stored s (PUSH_RATE_MINUTE K sid)) \<longrightarrow>
            \<not> allowed r \<and> exceededLimit r = Some minute \<and> remainingMinute r = 0 \<and>
            remainingHour r =
              max 0 (binary64 (binary64 (maxPerHour prefs) -
                               binary64 (stored s (PUSH_RATE_HOUR K sid)))) \<and>
            remainingHour r = remainingHour (getStatus K sid prefs s)) \<and>
         (binary64 (stored s (PUSH_RATE_MINUTE K sid)) < binary64 (maxPerMinute prefs) \<and>
          binary64 (maxPerHour prefs) \<le> binary64 (stored s (PUSH_RATE_HOUR K sid)) \<longrightarrow>
            \<not> allowed r \<and> exceededLimit r = Some hour \<and> remainingHour r = 0 \<and>
            remainingMinute r =
              max 0 (binary64 (binary64 (maxPerMinute prefs) -
                               binary64 (stored s (PUSH_RATE_MINUTE K sid)))) \<and>
            remainingMinute r = remainingMinute (getStatus K sid prefs s)) \<and>
         (binary64 (stored s (PUSH_RATE_MINUTE K sid)) < binary64 (maxPerMinute prefs) \<and>
          binary64 (stored s (PUSH_RATE_HOUR K sid)) < binary64 (maxPerHour prefs) \<longrightarrow>
            allowed r \<and> exceededLimit r = None) \<and>
         (maxPerMinute prefs \<le> stored s (PUSH_RATE_MINUTE K sid) \<longrightarrow>
            \<not> allowed r \<and> exceededLimit r = Some minute \<and> remainingMinute r = 0) \<and>
         (0 \<le> stored s (PUSH_RATE_MINUTE K sid) \<and> stored s (PUSH_RATE_MINUTE K sid) \<le> 9007199254740992 \<and>
          0 \<le> stored s (PUSH_RATE_HOUR K sid) \<and> stored s (PUSH_RATE_HOUR K sid) \<le> 9007199254740992 \<and>
          0 \<le> maxPerMinute prefs \<and> maxPerMinute prefs \<le> 9007199254740992 \<and>
          0 \<le> maxPerHour prefs \<and> maxPerHour prefs \<le> 9007199254740992 \<longrightarrow>
            (maxPerMinute prefs \<le> stored s (PUSH_RATE_MINUTE K sid) \<longrightarrow>
               \<not> allowed r \<and> exceededLimit r = Some minute \<and> remainingMinute r = 0 \<and>
               remainingHour r = max 0 (maxPerHour prefs - stored s (PUSH_RATE_HOUR K sid))) \<and>
            (stored s (PUSH_RATE_MINUTE K sid) < maxPerMinute prefs \<and>
             maxPerHour prefs \<le> stored s (PUSH_RATE_HOUR K sid) \<longrightarrow>
               \<not> allowed r \<and> exceededLimit r = Some hour \<and> remainingHour r = 0 \<and>
               remainingMinute r = max 0 (maxPerMinute prefs - stored s (PUSH_RATE_MINUTE K sid)))) \<and>
         (\<not> allowed r \<longrightarrow> exceededLimit r = Some minute \<or> exceededLimit r = Some hour) \<and>
         (\<not> allowed r \<and> exceededLimit r = Some minute \<longrightarrow>
            remainingMinute r = 0 \<and> remainingHour r = remainingHour (getStatus K sid prefs s)) \<and>
         (\<not> allowed r \<and> exceededLimit r = Some hour \<longrightarrow>
            remainingHour r = 0 \<and> remainingMinute r = remainingMinute (getStatus K sid prefs s))"
proof -
  let ?mk = "PUSH_RATE_MINUTE K sid" and ?hk = "PUSH_RATE_HOUR K sid"
  from assms have r: "r = fst (checkAndRecord K sid prefs s)" by simp
  have at_minute:
    "\<not> allowed r \<and> exceededLimit r = Some minute \<and> remainingMinute r = 0 \<and>
     remainingHour r = max 0 (binary64 (binary64 (maxPerHour prefs) - binary64 (stored s ?hk))) \<and>
     remainingHour r = remainingHour (getStatus K sid prefs s)"
    if "binary64 (maxPerMinute prefs) \<le> binary64 (stored s ?mk)"
    unfolding r checkAndRecord_minute_exceeded [OF that] by (simp add: getStatus_fields)
  have at_hour:
    "\<not> allowed r \<and> exceededLimit r = Some hour \<and> remainingHour r = 0 \<and>
     remainingMinute r = max 0 (binary64 (binary64 (maxPerMinute prefs) - binary64 (stored s ?mk))) \<and>
     remainingMinute r = remainingMinute (getStatus K sid prefs s)"
    if "binary64 (stored s ?mk) < binary64 (maxPerMinute prefs)"
      and "binary64 (maxPerHour prefs) \<le> binary64 (stored s ?hk)"
    unfolding r checkAndRecord_hour_exceeded [OF that] by (simp add: getStatus_fields)
  have below: "allowed r \<and> exceededLimit r = None"
    if "binary64 (stored s ?mk) < binary64 (maxPerMinute prefs)"
      and "binary64 (stored s ?hk) < binary64 (maxPerHour prefs)"
    unfolding r using checkAndRecord_under_allowed [OF that] by simp
  have plain_minute: "\<not> allowed r \<and> exceededLimit r = Some minute \<and> remainingMinute r = 0"
    if "maxPerMinute prefs \<le> stored s ?mk"
    using at_minute [OF binary64_mono [OF that]] by simp
  have exact:
    "(maxPerMinute prefs \<le> stored s ?mk \<longrightarrow>
        \<not> allowed r \<and> exceededLimit r = Some minute \<and> remainingMinute r = 0 \<and>
        remainingHour r = max 0 (maxPerHour prefs - stored s ?hk)) \<and>
     (stored s ?mk < maxPerMinute prefs \<and> maxPerHour prefs \<le> stored s ?hk \<longrightarrow>
        \<not> allowed r \<and> exceededLimit r = Some hour \<and> remainingHour r = 0 \<and>
        remainingMinute r = max 0 (maxPerMinute prefs - stored s ?mk))"
    if range: "0 \<le> stored s ?mk" "stored s ?mk \<le> 9007199254740992"
      "0 \<le> stored s ?hk" "stored s ?hk \<le> 9007199254740992"
      "0 \<le> maxPerMinute prefs" "maxPerMinute prefs \<le> 9007199254740992"
      "0 \<le> maxPerHour prefs" "maxPerHour prefs \<le> 9007199254740992"
  proof -
    from range have same:
      "binary64 (stored s ?mk) = stored s ?mk" "binary64 (stored s ?hk) = stored s ?hk"
      "binary64 (maxPerMinute prefs) = maxPerMinute prefs"
      "binary64 (maxPerHour prefs) = maxPerHour prefs"
      by (simp_all add: binary64_exact)
    from range have diff:
      "binary64 (binary64 (maxPerHour prefs) - binary64 (stored s ?hk)) =
         maxPerHour prefs - stored s ?hk"
      "binary64 (binary64 (maxPerMinute prefs) - binary64 (stored s ?mk)) =
         maxPerMinute prefs - stored s ?mk"
      by (simp_all add: exact_difference)
    from at_minute at_hour show ?thesis unfolding diff unfolding same by simp
  qed
  have cases:
    "binary64 (maxPerMinute prefs) \<le> binary64 (stored s ?mk) \<or>
     binary64 (stored s ?mk) < binary64 (maxPerMinute prefs) \<and>
       binary64 (maxPerHour prefs) \<le> binary64 (stored s ?hk) \<or>
     binary64 (stored s ?mk) < binary64 (maxPerMinute prefs) \<and>
       binary64 (stored s ?hk) < binary64 (maxPerHour prefs)"
    by linarith
  have named: "exceededLimit r = Some minute \<or> exceededLimit r = Some hour" if "\<not> allowed r"
    using cases at_minute at_hour below that by blast
  have by_minute: "remainingMinute r = 0 \<and> remainingHour r = remainingHour (getStatus K sid prefs s)"
    if "\<not> allowed r \<and> exceededLimit r = Some minute"
    using cases at_minute at_hour below that by auto
  have by_hour: "remainingHour r = 0 \<and> remainingMinute r = remainingMinute (getStatus K sid prefs s)"
    if "\<not> allowed r \<and> exceededLimit r = Some hour"
    using cases at_minute at_hour below that by auto
  from at_minute at_hour below plain_minute exact named by_minute by_hour show ?thesis by blast
qed

text \<open>
  The scenario of the specification, caps 5 and 100: the sixth call within the minute is
  denied with 0 and 95 remaining. Caps 5 and 2: the third call is denied for the hour,
  with 3 and 0 remaining. With both counts at their caps (caps 1 and 1), the denial names
  the minute.
\<close>

theorem minute_checked_before_hour_witness:
  "fst (checkAndRecord sample_keys ''d'' \<lparr>maxPerMinute = 5, maxPerHour = 100\<rparr>
      (snd (run sample_keys ''d'' \<lparr>maxPerMinute = 5, maxPerHour = 100\<rparr> Map.empty
         [Check, Check, Check, Check, Check]))) =
     \<lparr>remainingMinute = 0, remainingHour = 95, resetMinuteIn = 60, resetHourIn = 3600,
      allowed = False, exceededLimit = Some minute\<rparr> \<and>
   fst (checkAndRecord sample_keys ''d'' \<lparr>maxPerMinute = 5, maxPerHour = 2\<rparr>
      (snd (run sample_keys ''d'' \<lparr>maxPerMinute = 5, maxPerHour = 2\<rparr> Map.empty [Check, Check]))) =
     \<lparr>remainingMinute = 3, remainingHour = 0, resetMinuteIn = 60, resetHourIn = 3600,
      allowed = False, exceededLimit = Some hour\<rparr> \<and>
   stored (snd (run sample_keys ''d'' \<lparr>maxPerMinute = 1, maxPerHour = 1\<rparr> Map.empty [Check]))
     (PUSH_RATE_HOUR sample_keys ''d'') = 1 \<and>
   exceededLimit (fst (checkAndRecord sample_keys ''d'' \<lparr>maxPerMinute = 1, maxPerHour = 1\<rparr>
      (snd (run sample_keys ''d'' \<lparr>maxPerMinute = 1, maxPerHour = 1\<rparr> Map.empty [Check])))) =
     Some minute"
  using
    minute_checked_before_hour
    [of sample_keys "''d''" "\<lparr>maxPerMinute = 5, maxPerHour = 2\<rparr>"
        "snd (run sample_keys ''d'' \<lparr>maxPerMinute = 5, maxPerHour = 2\<rparr> Map.empty [Check, Check])"
        "fst (checkAndRecord sample_keys ''d'' \<lparr>maxPerMinute = 5, maxPerHour = 2\<rparr>
          (snd (run sample_keys ''d'' \<lparr>maxPerMinute = 5, maxPerHour = 2\<rparr> Map.empty [Check, Check])))"
        "snd (checkAndRecord sample_keys ''d'' \<lparr>maxPerMinute = 5, maxPerHour = 2\<rparr>
          (snd (run sample_keys ''d'' \<lparr>maxPerMinute = 5, maxPerHour = 2\<rparr> Map.empty [Check, Check])))"]
    minute_checked_before_hour
    [of sample_keys "''d''" "\<lparr>maxPerMinute = 1, maxPerHour = 1\<rparr>"
        "snd (run sample_keys ''d'' \<lparr>maxPerMinute = 1, maxPerHour = 1\<rparr> Map.empty [Check])"
        "fst (checkAndRecord sample_keys ''d'' \<lparr>maxPerMinute = 1, maxPerHour = 1\<rparr>
          (snd (run sample_keys ''d'' \<lparr>maxPerMinute = 1, maxPerHour = 1\<rparr> Map.empty [Check])))"
        "snd (checkAndRecord sample_keys ''d'' \<lparr>maxPerMinute = 1, maxPerHour = 1\<rparr>
          (snd (run sample_keys ''d'' \<lparr>maxPerMinute = 1, maxPerHour = 1\<rparr> Map.empty [Check])))"]
  by (simp add: store_eval)

lemma checkAndRecord_allowed_remaining:
  assumes "allowed (fst (checkAndRecord K sid prefs s))"
    and "PUSH_RATE_MINUTE K sid \<noteq> PUSH_RATE_HOUR K sid"
  shows "remainingMinute (fst (checkAndRecord K sid prefs s)) =
           max 0 (binary64 (binary64 (maxPerMinute prefs) -
                            binary64 (stored s (PUSH_RATE_MINUTE K sid) + 1)))"
    and "remainingHour (fst (checkAndRecord K sid prefs s)) =
           max 0 (binary64 (binary64 (maxPerHour prefs) -
                            binary64 (stored s (PUSH_RATE_HOUR K sid) + 1)))"
proof -
  let ?mk = "PUSH_RATE_MINUTE K sid" and ?hk = "PUSH_RATE_HOUR K sid"
  let ?script = "RATE_LIMIT_SCRIPT ?mk ?hk (maxPerMinute prefs) (maxPerHour prefs) s"
  from assms(1)
  have below: "binary64 (stored s ?mk) < binary64 (maxPerMinute prefs)"
    "binary64 (stored s ?hk) < binary64 (maxPerHour prefs)"
    by (simp_all add: checkAndRecord_allowed_iff)
  have reply: "fst (fst ?script) = 1"
    using below by (simp add: RATE_LIMIT_SCRIPT_def stored_def Let_def split_beta)
  have fields:
    "remainingMinute (fst (checkAndRecord K sid prefs s)) =
       max 0 (binary64 (binary64 (maxPerMinute prefs) - fst (snd (fst ?script))))"
    "remainingHour (fst (checkAndRecord K sid prefs s)) =
       max 0 (binary64 (binary64 (maxPerHour prefs) - fst (snd (snd (fst ?script)))))"
    using reply by (simp_all add: checkAndRecord_def Let_def split_beta)
  from fields(1) script_allowed_counts(3) [OF below assms(2)]
  show "remainingMinute (fst (checkAndRecord K sid prefs s)) =
          max 0 (binary64 (binary64 (maxPerMinute prefs) - binary64 (stored s ?mk + 1)))" by simp
  from fields(2) script_allowed_counts(4) [OF below assms(2)]
  show "remainingHour (fst (checkAndRecord K sid prefs s)) =
          max 0 (binary64 (binary64 (maxPerHour prefs) - binary64 (stored s ?hk + 1)))" by simp
qed

text \<open>
  Claim C8 says that every allowed call takes exactly one from the remaining budget of each
  window. The service computes \<open>cap - count\<close> in binary64. With an hour cap of
  \<open>2^53 + 2\<close> on the empty store, \<open>getStatus\<close> reports \<open>2^53 + 2\<close> remaining and the first
  allowed call reports \<open>2^53\<close>: the difference \<open>2^53 + 1\<close> is no binary64 and is rounded to
  the even neighbour. The second allowed call reports \<open>2^53\<close> again. The budget drops by
  two and then by nothing.
\<close>

theorem large_cap_budget_is_rounded:
  "allowed (fst (checkAndRecord sample_keys ''d''
      \<lparr>maxPerMinute = 5, maxPerHour = 9007199254740994\<rparr> Map.empty)) \<and>
   remainingHour (getStatus sample_keys ''d''
      \<lparr>maxPerMinute = 5, maxPerHour = 9007199254740994\<rparr> Map.empty) = 9007199254740994 \<and>
   remainingHour (fst (checkAndRecord sample_keys ''d''
      \<lparr>maxPerMinute = 5, maxPerHour = 9007199254740994\<rparr> Map.empty)) = 9007199254740992 \<and>
   allowed (fst (checkAndRecord sample_keys ''d''
      \<lparr>maxPerMinute = 5, maxPerHour = 9007199254740994\<rparr>
      (snd (run sample_keys ''d'' \<lparr>maxPerMinute = 5, maxPerHour = 9007199254740994\<rparr>
         Map.empty [Check])))) \<and>
   remainingHour (getStatus sample_keys ''d''
      \<lparr>maxPerMinute = 5, maxPerHour = 9007199254740994\<rparr>
      (snd (run sample_keys ''d'' \<lparr>maxPerMinute = 5, maxPerHour = 9007199254740994\<rparr>
         Map.empty [Check]))) = 9007199254740992 \<and>
   remainingHour (fst (checkAndRecord sample_keys ''d''
      \<lparr>maxPerMinute = 5, maxPerHour = 9007199254740994\<rparr>
      (snd (run sample_keys ''d'' \<lparr>maxPerMinute = 5, maxPerHour = 9007199254740994\<rparr>
         Map.empty [Check])))) = 9007199254740992"
  by (simp add: store_eval binary64_examples)

text \<open>
  Claim C8 for caps of at most \<open>2^53\<close> and counters that are not negative. After an allowed
  call, with distinct keys for the two windows, the remaining budget of each window is one
  less than \<open>getStatus\<close> reported on the store before the call, and \<open>getStatus\<close> on the store
  after the call reports what the call returned.
\<close>

theorem allowed_call_consumes_one:
  assumes keys: "PUSH_RATE_MINUTE K sid \<noteq> PUSH_RATE_HOUR K sid"
    and caps: "maxPerMinute prefs \<le> 9007199254740992" "maxPerHour prefs \<le> 9007199254740992"
    and counters: "0 \<le> stored s (PUSH_RATE_MINUTE K sid)" "0 \<le> stored s (PUSH_RATE_HOUR K sid)"
    and call: "checkAndRecord K sid prefs s = (r, s')"
    and ok: "allowed r"
  shows "remainingMinute r = remainingMinute (getStatus K sid prefs s) - 1 \<and>
         remainingHour r = remainingHour (getStatus K sid prefs s) - 1 \<and>
         remainingMinute (getStatus K sid prefs s') = remainingMinute r \<and>
         remainingHour (getStatus K sid prefs s') = remainingHour r"
proof -
  let ?mk = "PUSH_RATE_MINUTE K sid" and ?hk = "PUSH_RATE_HOUR K sid"
  from call ok have a: "allowed (fst (checkAndRecord K sid prefs s))" by simp
  then have below: "stored s ?mk < maxPerMinute prefs" "stored s ?hk < maxPerHour prefs"
    by (rule checkAndRecord_allowed_below)+
  from call have r: "r = fst (checkAndRecord K sid prefs s)"
    and s': "s' = snd (checkAndRecord K sid prefs s)" by simp_all
  have after: "stored s' ?mk = stored s ?mk + 1" "stored s' ?hk = stored s ?hk + 1"
    unfolding s' using a keys by (rule checkAndRecord_allowed_stored)+
  have rem: "remainingMinute r =
      max 0 (binary64 (binary64 (maxPerMinute prefs) - binary64 (stored s ?mk + 1)))"
    "remainingHour r =
      max 0 (binary64 (binary64 (maxPerHour prefs) - binary64 (stored s ?hk + 1)))"
    unfolding r using a keys by (rule checkAndRecord_allowed_remaining)+
  from below caps counters have minute:
    "binary64 (binary64 (maxPerMinute prefs) - binary64 (stored s ?mk)) =
       maxPerMinute prefs - stored s ?mk"
    "binary64 (binary64 (maxPerMinute prefs) - binary64 (stored s ?mk + 1)) =
       maxPerMinute prefs - (stored s ?mk + 1)"
    by (simp_all add: exact_difference)
  from below caps counters have hour:
    "binary64 (binary64 (maxPerHour prefs) - binary64 (stored s ?hk)) =
       maxPerHour prefs - stored s ?hk"
    "binary64 (binary64 (maxPerHour prefs) - binary64 (stored s ?hk + 1)) =
       maxPerHour prefs - (stored s ?hk + 1)"
    by (simp_all add: exact_difference)
  from rem(1) below(1) have "remainingMinute r = remainingMinute (getStatus K sid prefs s) - 1"
    by (simp add: getStatus_fields minute)
  moreover from rem(2) below(2) have "remainingHour r = remainingHour (getStatus K sid prefs s) - 1"
    by (simp add: getStatus_fields hour)
  moreover from rem(1) have "remainingMinute (getStatus K sid prefs s') = remainingMinute r"
    by (simp add: getStatus_fields after)
  moreover from rem(2) have "remainingHour (getStatus K sid prefs s') = remainingHour r"
    by (simp add: getStatus_fields after)
  ultimately show ?thesis by simp
qed

text \<open>
  Caps 5 and 100, after two allowed calls: the third call takes the minute budget from 3
  to 2 and the hour budget from 98 to 97.
\<close>

theorem allowed_call_consumes_one_witness:
  "PUSH_RATE_MINUTE sample_keys ''d'' \<noteq> PUSH_RATE_HOUR sample_keys ''d'' \<and>
   allowed (fst (checkAndRecord sample_keys ''d'' \<lparr>maxPerMinute = 5, maxPerHour = 100\<rparr>
      (snd (run sample_keys ''d'' \<lparr>maxPerMinute = 5, maxPerHour = 100\<rparr> Map.empty [Check, Check])))) \<and>
   remainingMinute (getStatus sample_keys ''d'' \<lparr>maxPerMinute = 5, maxPerHour = 100\<rparr>
      (snd (run sample_keys ''d'' \<lparr>maxPerMinute = 5, maxPerHour = 100\<rparr> Map.empty [Check, Check]))) = 3 \<and>
   remainingMinute (fst (checkAndRecord sample_keys ''d'' \<lparr>maxPerMinute = 5, maxPerHour = 100\<rparr>
      (snd (run sample_keys ''d'' \<lparr>maxPerMinute = 5, maxPerHour = 100\<rparr> Map.empty [Check, Check])))) = 2 \<and>
   remainingHour (getStatus sample_keys ''d'' \<lparr>maxPerMinute = 5, maxPerHour = 100\<rparr>
      (snd (run sample_keys ''d'' \<lparr>maxPerMinute = 5, maxPerHour = 100\<rparr> Map.empty [Check, Check]))) = 98 \<and>
   remainingHour (fst (checkAndRecord sample_keys ''d'' \<lparr>maxPerMinute = 5, maxPerHour = 100\<rparr>
      (snd (run sample_keys ''d'' \<lparr>maxPerMinute = 5, maxPerHour = 100\<rparr> Map.empty [Check, Check])))) = 97"
  using allowed_call_consumes_one
    [of sample_keys "''d''" "\<lparr>maxPerMinute = 5, maxPerHour = 100\<rparr>"
        "snd (run sample_keys ''d'' \<lparr>maxPerMinute = 5, maxPerHour = 100\<rparr> Map.empty [Check, Check])"
        "fst (checkAndRecord sample_keys ''d'' \<lparr>maxPerMinute = 5, maxPerHour = 100\<rparr>
          (snd (run sample_keys ''d'' \<lparr>maxPerMinute = 5, maxPerHour = 100\<rparr> Map.empty [Check, Check])))"
        "snd (checkAndRecord sample_keys ''d'' \<lparr>maxPerMinute = 5, maxPerHour = 100\<rparr>
          (snd (run sample_keys ''d'' \<lparr>maxPerMinute = 5, maxPerHour = 100\<rparr> Map.empty [Check, Check])))"]
  by (simp add: store_eval)

lemma checkAndRecord_reset_fields:
  "resetMinuteIn (fst (checkAndRecord K sid prefs s)) =
     (if TTL s (PUSH_RATE_MINUTE K sid) > 0 then TTL s (PUSH_RATE_MINUTE K sid) else 60)"
  "resetHourIn (fst (checkAndRecord K sid prefs s)) =
     (if TTL s (PUSH_RATE_HOUR K sid) > 0 then TTL s (PUSH_RATE_HOUR K sid) else 3600)"
  by (simp_all add: checkAndRecord_def RATE_LIMIT_SCRIPT_def Let_def split_beta)

lemma TTL_absent: "s k = None \<Longrightarrow> TTL s k = - 2"
  by (simp add: TTL_def)

text \<open>
  Claim C9. When the minute key is absent, \<open>checkAndRecord\<close> and \<open>getStatus\<close> both report
  \<open>resetMinuteIn = 60\<close>; when the hour key is absent, both report \<open>resetHourIn = 3600\<close>.
  The same holds whenever the store reports a remaining time that is not positive.
\<close>

theorem absent_key_resets_in_full_window:
  "(s (PUSH_RATE_MINUTE K sid) = None \<longrightarrow>
      resetMinuteIn (fst (checkAndRecord K sid prefs s)) = 60 \<and>
      resetMinuteIn (getStatus K sid prefs s) = 60) \<and>
   (s (PUSH_RATE_HOUR K sid) = None \<longrightarrow>
      resetHourIn (fst (checkAndRecord K sid prefs s)) = 3600 \<and>
      resetHourIn (getStatus K sid prefs s) = 3600) \<and>
   (TTL s (PUSH_RATE_MINUTE K sid) \<le> 0 \<longrightarrow>
      resetMinuteIn (fst (checkAndRecord K sid prefs s)) = 60 \<and>
      resetMinuteIn (getStatus K sid prefs s) = 60) \<and>
   (TTL s (PUSH_RATE_HOUR K sid) \<le> 0 \<longrightarrow>
      resetHourIn (fst (checkAndRecord K sid prefs s)) = 3600 \<and>
      resetHourIn (getStatus K sid prefs s) = 3600)"
  by (simp add: checkAndRecord_reset_fields getStatus_fields TTL_absent)


text \<open>
  On the empty store both reset times are the full windows. One minute after a first call
  the minute key is gone and the hour key is not: the minute resets in 60 seconds, the hour
  in the 3540 seconds the store reports.
\<close>

theorem absent_key_resets_in_full_window_witness:
  "Map.empty (PUSH_RATE_MINUTE sample_keys ''d'') = (None :: entry option) \<and>
   resetMinuteIn (fst (checkAndRecord sample_keys ''d'' \<lparr>maxPerMinute = 5, maxPerHour = 100\<rparr> Map.empty)) = 60 \<and>
   resetHourIn (fst (checkAndRecord sample_keys ''d'' \<lparr>maxPerMinute = 5, maxPerHour = 100\<rparr> Map.empty)) = 3600 \<and>
   snd (run sample_keys ''d'' \<lparr>maxPerMinute = 5, maxPerHour = 100\<rparr> Map.empty [Check, Elapse 60000])
     (PUSH_RATE_MINUTE sample_keys ''d'') = None \<and>
   TTL (snd (run sample_keys ''d'' \<lparr>maxPerMinute = 5, maxPerHour = 100\<rparr> Map.empty [Check, Elapse 60000]))
     (PUSH_RATE_HOUR sample_keys ''d'') = 3540 \<and>
   getStatus sample_keys ''d'' \<lparr>maxPerMinute = 5, maxPerHour = 100\<rparr>
     (snd (run sample_keys ''d'' \<lparr>maxPerMinute = 5, maxPerHour = 100\<rparr> Map.empty [Check, Elapse 60000])) =
     \<lparr>remainingMinute = 5, remainingHour = 99, resetMinuteIn = 60, resetHourIn = 3540\<rparr>"
  using absent_key_resets_in_full_window
    [of Map.empty sample_keys "''d''" "\<lparr>maxPerMinute = 5, maxPerHour = 100\<rparr>"]
    absent_key_resets_in_full_window
    [of "snd (run sample_keys ''d'' \<lparr>maxPerMinute = 5, maxPerHour = 100\<rparr> Map.empty [Check, Elapse 60000])"
        sample_keys "''d''" "\<lparr>maxPerMinute = 5, maxPerHour = 100\<rparr>"]
  by (simp add: store_eval)

section \<open>The claims about quiet hours\<close>

lemma minutesOf_examples:
  "minutesOf ''23:00'' = Num 1380"
  "minutesOf ''07:00'' = Num 420"
  "minutesOf ''23:30'' = Num 1410"
  "minutesOf ''06:59'' = Num 419"
  "minutesOf ''12:00'' = Num 720"
  "minutesOf ''01:00'' = Num 60"
  "minutesOf ''06:00'' = Num 360"
  "minutesOf ''00:30'' = Num 30"
  "minutesOf ''03:00'' = Num 180"
  "minutesOf ''22:00'' = Num 1320"
  "minutesOf ''22:05'' = Num 1325"
  "minutesOf ''21:59'' = Num 1319"
  "minutesOf '':'' = Num 0"
  "minutesOf ''23:59'' = Num 1439"
  "minutesOf ''7pm'' = NaN"
  "minutesOf ''ab:cd'' = NaN"
  by code_simp+

lemma userTime_utc_runtime:
  "userTime (utc_runtime ms) (quiet_prefs a b override) = Some (print_utc ms)"
  by (simp add: userTime_def utc_runtime_def quiet_prefs_def)

lemma print_utc_examples:
  "print_utc (at_utc 23 30) = ''23:30''"
  "print_utc (at_utc 6 59) = ''06:59''"
  "print_utc (at_utc 12 0) = ''12:00''"
  "print_utc (at_utc 0 30) = ''00:30''"
  "print_utc (at_utc 3 0) = ''03:00''"
  "print_utc (at_utc 22 0) = ''22:00''"
  "print_utc (at_utc 22 5) = ''22:05''"
  "print_utc (at_utc 21 59) = ''21:59''"
  "print_utc (at_utc 23 0) = ''23:00''"
  "print_utc (at_utc 47 30) = ''23:30''"
  by (simp_all add: print_utc_def at_utc_def two_digits_def)


lemma js_or_Some: "js_or (Some p) (Some q) = Some (p \<or> q)"
  by (cases p) simp_all

lemma js_and_Some: "js_and (Some p) (Some q) = Some (p \<and> q)"
  by (cases p) simp_all


lemma quiet_prefs_simps:
  "quietHoursEnabled (quiet_prefs a b override)"
  "quietHoursStart (quiet_prefs a b override) = Some a"
  "quietHoursEnd (quiet_prefs a b override) = Some b"
  "quietHoursTimezone (quiet_prefs a b override) = ''UTC''"
  "quietHoursOverrideCritical (quiet_prefs a b override) = override"
  by (simp_all add: quiet_prefs_def)


lemma isQuietTime_utc_runtime:
  assumes "a \<noteq> []" and "b \<noteq> []"
    and "minutesOf (print_utc ms) = Num c" and "minutesOf a = Num s" and "minutesOf b = Num e"
  shows "isQuietTime (utc_runtime ms) (quiet_prefs a b override) =
           Returned (if s > e then c \<ge> s \<or> c \<le> e else s \<le> c \<and> c \<le> e)"
  using assms
  by (simp add: isQuietTime_def of_comparison_def js_or_Some js_and_Some quiet_prefs_simps
      userTime_utc_runtime)

lemma isQuietTime_examples:
  "isQuietTime (utc_runtime (at_utc 23 0)) (quiet_prefs ''22:00'' ''06:00'' override) = Returned True"
  "isQuietTime (utc_runtime (at_utc 12 0)) (quiet_prefs ''22:00'' ''06:00'' override) = Returned False"
  "isQuietTime (utc_runtime (at_utc 12 0)) (quiet_prefs ''23:00'' ''07:00'' override) = Returned False"
  "isQuietTime (utc_runtime (at_utc 23 30)) (quiet_prefs ''23:00'' ''07:00'' override) = Returned True"
  "isQuietTime (utc_runtime (at_utc 12 0)) (quiet_prefs '':'' ''23:59'' override) = Returned True"
  by (simp_all add: isQuietTime_utc_runtime print_utc_examples minutesOf_examples)

text \<open>
  Claim C5. Outside quiet time \<open>shouldSend\<close> returns true. In quiet time it returns true
  exactly when \<open>quietHoursOverrideCritical\<close> is set and the severity is \<open>high\<close>; \<open>warning\<close>
  never passes. \<open>shouldSendEvent\<close> is \<open>shouldSend\<close> at \<open>high\<close> for \<open>server_down\<close> and at
  \<open>low\<close> for the three other events.
\<close>

theorem shouldSend_policy:
  "(isQuietTime rt prefs = Returned False \<longrightarrow> shouldSend rt prefs severity = Returned True) \<and>
   (isQuietTime rt prefs = Returned True \<longrightarrow>
      shouldSend rt prefs severity =
        Returned (quietHoursOverrideCritical prefs \<and> severity = high)) \<and>
   (isQuietTime rt prefs = Returned True \<longrightarrow> shouldSend rt prefs warning = Returned False) \<and>
   shouldSendEvent rt prefs server_down = shouldSend rt prefs high \<and>
   shouldSendEvent rt prefs session_started = shouldSend rt prefs low \<and>
   shouldSendEvent rt prefs session_stopped = shouldSend rt prefs low \<and>
   shouldSendEvent rt prefs server_up = shouldSend rt prefs low"
  by (simp add: shouldSend_def shouldSendEvent_def)


text \<open>
  Quiet hours from 22:00 to 06:00 at 23:00: with the override set, \<open>server_down\<close> is sent
  and \<open>session_started\<close> is not; \<open>high\<close> without the override and \<open>warning\<close> with it are
  not sent. At 12:00 a \<open>low\<close> notification is sent.
\<close>

theorem shouldSend_policy_witness:
  "isQuietTime (utc_runtime (at_utc 23 0)) (quiet_prefs ''22:00'' ''06:00'' True) = Returned True \<and>
   shouldSendEvent (utc_runtime (at_utc 23 0)) (quiet_prefs ''22:00'' ''06:00'' True) server_down = Returned True \<and>
   shouldSendEvent (utc_runtime (at_utc 23 0)) (quiet_prefs ''22:00'' ''06:00'' True) session_started = Returned False \<and>
   shouldSend (utc_runtime (at_utc 23 0)) (quiet_prefs ''22:00'' ''06:00'' False) high = Returned False \<and>
   shouldSend (utc_runtime (at_utc 23 0)) (quiet_prefs ''22:00'' ''06:00'' True) warning = Returned False \<and>
   isQuietTime (utc_runtime (at_utc 12 0)) (quiet_prefs ''22:00'' ''06:00'' False) = Returned False \<and>
   shouldSend (utc_runtime (at_utc 12 0)) (quiet_prefs ''22:00'' ''06:00'' False) low = Returned True"
  using
    shouldSend_policy [of "utc_runtime (at_utc 23 0)" "quiet_prefs ''22:00'' ''06:00'' True" high]
    shouldSend_policy [of "utc_runtime (at_utc 23 0)" "quiet_prefs ''22:00'' ''06:00'' True" low]
    shouldSend_policy [of "utc_runtime (at_utc 23 0)" "quiet_prefs ''22:00'' ''06:00'' False" high]
    shouldSend_policy [of "utc_runtime (at_utc 12 0)" "quiet_prefs ''22:00'' ''06:00'' False" low]
    isQuietTime_examples
  by (simp add: quiet_prefs_simps)




text \<open>
  Claim C6 says that the operations take the current instant as an argument, so that the
  arguments alone determine the result. \<open>isQuietTime(prefs)\<close> and
  \<open>shouldSend(prefs, severity)\<close> have no such parameter: they read \<open>new Date()\<close>. Two calls
  with the same arguments, in runtimes that differ in the wall clock only, return
  different results.
\<close>

theorem result_varies_with_wall_clock:
  "isQuietTime (utc_runtime (at_utc 12 0)) (quiet_prefs ''23:00'' ''07:00'' False) \<noteq>
     isQuietTime ((utc_runtime (at_utc 12 0))\<lparr>wallClock := at_utc 23 30\<rparr>)
       (quiet_prefs ''23:00'' ''07:00'' False) \<and>
   shouldSend (utc_runtime (at_utc 12 0)) (quiet_prefs ''23:00'' ''07:00'' False) low \<noteq>
     shouldSend ((utc_runtime (at_utc 12 0))\<lparr>wallClock := at_utc 23 30\<rparr>)
       (quiet_prefs ''23:00'' ''07:00'' False) low"
proof -
  have later: "(utc_runtime (at_utc 12 0))\<lparr>wallClock := at_utc 23 30\<rparr> = utc_runtime (at_utc 23 30)"
    by (simp add: utc_runtime_def)
  show ?thesis
    unfolding later by (simp add: shouldSend_def isQuietTime_examples quiet_prefs_simps)
qed

text \<open>
  Claim C6 as the service has it: the runtime enters the three operations only through
  the time of day it prints for the wall clock at the call, in the zone of the preferences
  or in UTC. Two runtimes that print the same time give the same results.
\<close>

theorem quiet_hours_follow_clock_reading:
  assumes "userTime rt prefs = userTime rt' prefs"
  shows "isQuietTime rt prefs = isQuietTime rt' prefs \<and>
         shouldSend rt prefs severity = shouldSend rt' prefs severity \<and>
         shouldSendEvent rt prefs ev = shouldSendEvent rt' prefs ev"
proof -
  from assms have quiet: "isQuietTime rt prefs = isQuietTime rt' prefs"
    by (simp add: isQuietTime_def)
  then have "\<And>sev. shouldSend rt prefs sev = shouldSend rt' prefs sev"
    by (simp add: shouldSend_def)
  with quiet show ?thesis by (simp add: shouldSendEvent_def)
qed

text \<open>
  A day later the runtime prints 23:30 again, and the results are those of the day
  before.
\<close>

theorem quiet_hours_follow_clock_reading_witness:
  "userTime (utc_runtime (at_utc 23 30)) (quiet_prefs ''23:00'' ''07:00'' False) =
     userTime (utc_runtime (at_utc 47 30)) (quiet_prefs ''23:00'' ''07:00'' False) \<and>
   wallClock (utc_runtime (at_utc 23 30)) \<noteq> wallClock (utc_runtime (at_utc 47 30)) \<and>
   isQuietTime (utc_runtime (at_utc 47 30)) (quiet_prefs ''23:00'' ''07:00'' False) = Returned True \<and>
   shouldSend (utc_runtime (at_utc 47 30)) (quiet_prefs ''23:00'' ''07:00'' False) high = Returned False"
proof -
  have clocks: "wallClock (utc_runtime (at_utc 23 30)) \<noteq> wallClock (utc_runtime (at_utc 47 30))"
    by (simp add: utc_runtime_def at_utc_def)
  from clocks quiet_hours_follow_clock_reading
    [of "utc_runtime (at_utc 23 30)" "quiet_prefs ''23:00'' ''07:00'' False"
        "utc_runtime (at_utc 47 30)" high server_up]
  show ?thesis
    by (simp add: userTime_utc_runtime print_utc_examples isQuietTime_examples shouldSend_def
        quiet_prefs_simps)
qed

lemma split_on_no_separator: "sep \<notin> set str \<Longrightarrow> split_on sep str = [str]"
  by (induction str) auto

lemma js_plus_NaN: "js_plus x NaN = NaN"
  by (cases x) simp_all

lemma minutesOf_no_colon: "CHR '':'' \<notin> set str \<Longrightarrow> minutesOf str = NaN"
  by (simp add: minutesOf_def split_on_no_separator element_def ToNumber_def js_plus_NaN)

lemma comparisons_with_NaN:
  "js_gt x NaN = Some False" "js_ge x NaN = Some False" "js_le x NaN = Some False"
  by (cases x; simp)+

lemma js_and_False: "js_and x (Some False) = Some False"
  by (cases x) (simp_all add: js_and_Some)

lemma userTime_with_UTC:
  assumes "DateTimeFormat rt ''UTC'' = Some fmt"
  shows "userTime rt prefs \<noteq> None"
    and "DateTimeFormat rt (quietHoursTimezone prefs) = None \<Longrightarrow>
           userTime rt prefs = userTime rt (prefs\<lparr>quietHoursTimezone := ''UTC''\<rparr>)"
  using assms by (auto simp: userTime_def Let_def split: option.splits)

lemma isQuietTime_NaN:
  assumes "userTime rt prefs = Some t"
    and "quietHoursStart prefs = Some a" and "quietHoursEnd prefs = Some b"
    and "minutesOf a = NaN \<or> minutesOf b = NaN"
  shows "isQuietTime rt prefs = Returned False"
proof (cases "minutesOf a = NaN")
  case True
  with assms(1-3) show ?thesis
    by (simp add: isQuietTime_def of_comparison_def comparisons_with_NaN)
next
  case False
  with assms(4) have "minutesOf b = NaN" by simp
  with assms(1-3) show ?thesis
    by (simp add: isQuietTime_def of_comparison_def comparisons_with_NaN js_and_False)
qed


text \<open>
  Claim C7 says that a start or end that is not of the form \<open>HH:MM\<close> disables quiet hours.
  The start \<open>":"\<close> is not of that form; \<open>split\<close> and \<open>Number\<close> make it 0 minutes, and with
  the end 23:59 the time 12:00 is quiet.
\<close>

theorem malformed_start_is_used:
  "isQuietTime (utc_runtime (at_utc 12 0)) (quiet_prefs '':'' ''23:59'' False) = Returned True"
  by (rule isQuietTime_examples)

text \<open>
  Claim C7 as the service has it, for a runtime that knows the zone UTC. \<open>isQuietTime\<close> does
  not throw. With a zone the runtime rejects, the result is that of the same preferences
  in UTC. When the minutes of the start or of the end are \<open>NaN\<close>, the result is false; this
  is so in particular when one of them has no colon.
\<close>

theorem configuration_errors_recovered:
  assumes "DateTimeFormat rt ''UTC'' = Some fmt"
  shows "isQuietTime rt prefs \<noteq> Threw \<and>
         (DateTimeFormat rt (quietHoursTimezone prefs) = None \<longrightarrow>
            isQuietTime rt prefs = isQuietTime rt (prefs\<lparr>quietHoursTimezone := ''UTC''\<rparr>)) \<and>
         (quietHoursStart prefs = Some a \<and> quietHoursEnd prefs = Some b \<and>
          (minutesOf a = NaN \<or> minutesOf b = NaN) \<longrightarrow>
            isQuietTime rt prefs = Returned False) \<and>
         (quietHoursStart prefs = Some a \<and> quietHoursEnd prefs = Some b \<and>
          (CHR '':'' \<notin> set a \<or> CHR '':'' \<notin> set b) \<longrightarrow>
            isQuietTime rt prefs = Returned False)"
proof -
  from userTime_with_UTC(1) [OF assms] obtain t where t: "userTime rt prefs = Some t"
    by blast
  have no_throw: "isQuietTime rt prefs \<noteq> Threw"
    using t
    by (auto simp: isQuietTime_def of_comparison_def Let_def split: option.splits bool.splits)
  have zone: "isQuietTime rt prefs = isQuietTime rt (prefs\<lparr>quietHoursTimezone := ''UTC''\<rparr>)"
    if "DateTimeFormat rt (quietHoursTimezone prefs) = None"
    using userTime_with_UTC(2) [OF assms that]
    by (simp add: isQuietTime_def Let_def split: option.splits)
  have nan: "isQuietTime rt prefs = Returned False"
    if "quietHoursStart prefs = Some a" "quietHoursEnd prefs = Some b"
      "minutesOf a = NaN \<or> minutesOf b = NaN"
    using t that by (rule isQuietTime_NaN)
  have colon: "isQuietTime rt prefs = Returned False"
    if "quietHoursStart prefs = Some a" "quietHoursEnd prefs = Some b"
      "CHR '':'' \<notin> set a \<or> CHR '':'' \<notin> set b"
    using that minutesOf_no_colon by (intro nan) auto
  from no_throw zone nan colon show ?thesis by blast
qed

text \<open>
  At 23:30 UTC with quiet hours from 23:00 to 07:00 in an unknown zone, the time is quiet.
  The start \<open>"7pm"\<close> and the end \<open>"ab:cd"\<close> give \<open>NaN\<close> and the result false.
\<close>

theorem configuration_errors_recovered_witness:
  "DateTimeFormat (utc_runtime (at_utc 23 30)) ''UTC'' = Some print_utc \<and>
   DateTimeFormat (utc_runtime (at_utc 23 30)) ''Mars/Olympus'' = None \<and>
   isQuietTime (utc_runtime (at_utc 23 30))
     ((quiet_prefs ''23:00'' ''07:00'' False)\<lparr>quietHoursTimezone := ''Mars/Olympus''\<rparr>) = Returned True \<and>
   minutesOf ''7pm'' = NaN \<and>
   isQuietTime (utc_runtime (at_utc 23 30)) (quiet_prefs ''7pm'' ''07:00'' False) = Returned False \<and>
   minutesOf ''ab:cd'' = NaN \<and>
   isQuietTime (utc_runtime (at_utc 23 30)) (quiet_prefs ''23:00'' ''ab:cd'' False) = Returned False"
proof -
  have utc: "DateTimeFormat (utc_runtime (at_utc 23 30)) ''UTC'' = Some print_utc"
    and mars: "DateTimeFormat (utc_runtime (at_utc 23 30)) ''Mars/Olympus'' = None"
    by (simp_all add: utc_runtime_def)
  have restored: "(quiet_prefs ''23:00'' ''07:00'' False)
      \<lparr>quietHoursTimezone := ''Mars/Olympus'', quietHoursTimezone := ''UTC''\<rparr> =
      quiet_prefs ''23:00'' ''07:00'' False"
    by (simp add: quiet_prefs_def)
  from configuration_errors_recovered [OF utc,
      of "(quiet_prefs ''23:00'' ''07:00'' False)\<lparr>quietHoursTimezone := ''Mars/Olympus''\<rparr>"]
    mars restored
  have "isQuietTime (utc_runtime (at_utc 23 30))
     ((quiet_prefs ''23:00'' ''07:00'' False)\<lparr>quietHoursTimezone := ''Mars/Olympus''\<rparr>) = Returned True"
    by (simp add: isQuietTime_examples)
  moreover
  from configuration_errors_recovered [OF utc, of "quiet_prefs ''7pm'' ''07:00'' False" "''7pm''" "''07:00''"]
  have "isQuietTime (utc_runtime (at_utc 23 30)) (quiet_prefs ''7pm'' ''07:00'' False) = Returned False"
    by (simp add: quiet_prefs_simps minutesOf_examples)
  moreover
  from configuration_errors_recovered [OF utc, of "quiet_prefs ''23:00'' ''ab:cd'' False" "''23:00''" "''ab:cd''"]
  have "isQuietTime (utc_runtime (at_utc 23 30)) (quiet_prefs ''23:00'' ''ab:cd'' False) = Returned False"
    by (simp add: quiet_prefs_simps minutesOf_examples)
  ultimately show ?thesis
    using utc mars by (simp add: minutesOf_examples)
qed

end

